theory Spec2Isabelle
  imports Main "HOL-Library.Char_ord" "HOL-Library.List_Lexorder"
begin

section \<open>The migration status file and the patterns that read it\<close>

text \<open>
  The container entrypoint keeps its record of applied migrations in the text file
  \<^verbatim>\<open>/app/data/.migration_status\<close>. The file is modelled by its lines; \<open>None\<close> is
  the state in which the file does not exist (the test \<^verbatim>\<open>[ -f "$MIGRATION_STATUS_FILE" ]\<close>
  fails).
\<close>

type_synonym status_file = "string list option"

text \<open>
  Both shell functions paste the migration's file name into a basic regular expression:
  \<^verbatim>\<open>grep -q "^${migration_file}:applied:"\<close>, \<^verbatim>\<open>grep -q "^${migration_file}:"\<close> and
  \<^verbatim>\<open>sed -i "s/^${migration_file}:.*/.../"\<close>. In such an expression a dot stands for any
  single character and every other character modelled here stands for itself. The
  characters in \<open>bre_other_special\<close> have further meanings (repetition, bracket
  expressions, escapes, the replacement's \<^verbatim>\<open>&\<close>) that are not modelled: the model follows
  \<^verbatim>\<open>grep\<close> and \<^verbatim>\<open>sed\<close> on the names accepted by \<open>bre_plain\<close>, among them every
  name built from letters, digits, dots, dashes, underscores, colons and spaces.
\<close>

definition bre_other_special :: "char list" where
  "bre_other_special = [CHR ''*'', CHR ''['', CHR 0x5C, CHR ''^'', CHR ''$'', CHR ''&'', CHR ''/'', CHR 0x0A]"

definition bre_plain :: "string \<Rightarrow> bool" where
  "bre_plain name = list_all (\<lambda>c. c \<notin> set bre_other_special) name"

definition bre_char :: "char \<Rightarrow> char \<Rightarrow> bool" where
  "bre_char p c = (p = CHR ''.'' \<or> p = c)"

text \<open>\<open>bre_prefix pat line\<close>: the expression \<^verbatim>\<open>^pat\<close> matches \<open>line\<close>, that is, \<open>pat\<close>
  matches a prefix of the line, character by character.\<close>

fun bre_prefix :: "string \<Rightarrow> string \<Rightarrow> bool" where
  "bre_prefix [] line = True"
| "bre_prefix (p # ps) [] = False"
| "bre_prefix (p # ps) (c # cs) = (bre_char p c \<and> bre_prefix ps cs)"

text \<open>An expression with no leading \<^verbatim>\<open>^\<close> may match at any position of the line.\<close>

fun bre_anywhere :: "string \<Rightarrow> string \<Rightarrow> bool" where
  "bre_anywhere pat [] = bre_prefix pat []"
| "bre_anywhere pat (c # cs) = (bre_prefix pat (c # cs) \<or> bre_anywhere pat cs)"

text \<open>\<^verbatim>\<open>grep -q PATTERN FILE\<close> succeeds when some line of the file matches.\<close>

definition grep_q :: "string \<Rightarrow> string list \<Rightarrow> bool" where
  "grep_q pattern lines =
     (case pattern of
        [] \<Rightarrow> lines \<noteq> []
      | p # ps \<Rightarrow> if p = CHR ''^'' then list_ex (bre_prefix ps) lines
                 else list_ex (bre_anywhere pattern) lines)"

text \<open>\<^verbatim>\<open>sed -i "s/^PAT.*/REPL/" FILE\<close>: every line that \<^verbatim>\<open>^PAT\<close> matches is replaced as
  a whole (the \<^verbatim>\<open>.*\<close> runs to the end of the line); the other lines stay.\<close>

definition sed_s_line :: "string \<Rightarrow> string \<Rightarrow> string list \<Rightarrow> string list" where
  "sed_s_line pat repl lines = map (\<lambda>l. if bre_prefix pat l then repl else l) lines"

definition status_header :: string where
  "status_header = ''# Migration Status - Auto-generated''"

definition is_migration_applied :: "string \<Rightarrow> status_file \<Rightarrow> bool" where
  "is_migration_applied migration_file sf =
     (case sf of
        Some lines \<Rightarrow> grep_q (''^'' @ migration_file @ '':applied:'') lines
      | None \<Rightarrow> False)"

definition mark_migration_applied :: "string \<Rightarrow> string \<Rightarrow> status_file \<Rightarrow> status_file" where
  "mark_migration_applied migration_file timestamp sf =
     (let lines = (case sf of None \<Rightarrow> [status_header] | Some ls \<Rightarrow> ls) in
      if grep_q (''^'' @ migration_file @ '':'') lines
      then Some (sed_s_line (migration_file @ '':'')
                   (migration_file @ '':applied:'' @ timestamp) lines)
      else Some (lines @ [migration_file @ '':applied:'' @ timestamp]))"

section \<open>The migrations directory\<close>

text \<open>
  A directory is a finite map from names to entries, kept as an association list (the
  first pair of a name counts). The loop header
  \<^verbatim>\<open>for migration_file in "$MIGRATIONS_DIR"/*.sql\<close> expands to the names that end in
  \<^verbatim>\<open>.sql\<close> and do not start with a dot, sorted; the image sets no locale, so the order is
  the byte order of the names. When nothing matches, the pattern itself is the only word,
  and the test \<^verbatim>\<open>[ -f "$migration_file" ]\<close> in the body rejects it.
\<close>

datatype 'b entry = File 'b | Directory

type_synonym 'b directory = "(string \<times> 'b entry) list"

definition dir_names :: "'b directory \<Rightarrow> string list" where
  "dir_names dir = remdups (map fst dir)"

definition is_sql_name :: "string \<Rightarrow> bool" where
  "is_sql_name n = (4 < length n \<and> drop (length n - 4) n = ''.sql'' \<and> take 1 n \<noteq> ''.'')"

definition glob_sql :: "'b directory \<Rightarrow> string list" where
  "glob_sql dir =
     (let ms = sort (filter is_sql_name (dir_names dir))
      in if ms = [] then [''*.sql''] else ms)"

section \<open>The entrypoint's migration loop\<close>

text \<open>The lines the script prints about what it does with a migration (the lines that
  only repeat the connection settings are left out).\<close>

datatype message =
    Applying string
  | Marked_applied string
  | Applied_successfully string
  | Migration_failed string
  | Already_applied string
  | All_processed
  | No_migrations_directory
  | Starting_application

record 'db state =
  status :: status_file
  database :: 'db
  printed :: "message list"

text \<open>
  \<open>psql body db\<close> is the run of \<^verbatim>\<open>psql ... -f "$migration_file"\<close> on a file with
  contents \<open>body\<close>: the database it leaves and whether its exit status was 0. The script
  sees nothing else of it. \<open>date k\<close> is what \<^verbatim>\<open>date '+%Y-%m-%d %H:%M:%S'\<close> prints during
  the \<open>k\<close>-th iteration of the loop. The result is \<open>Some code\<close> when the loop ends the
  script with \<^verbatim>\<open>exit code\<close> and \<open>None\<close> when the loop runs to its end.
\<close>

fun migration_loop ::
  "('b \<Rightarrow> 'db \<Rightarrow> 'db \<times> bool) \<Rightarrow> (nat \<Rightarrow> string) \<Rightarrow> 'b directory \<Rightarrow> nat \<Rightarrow>
   string list \<Rightarrow> 'db state \<Rightarrow> nat option \<times> 'db state" where
  "migration_loop psql date dir k [] s = (None, s)"
| "migration_loop psql date dir k (migration_name # rest) s =
     (case map_of dir migration_name of
        Some (File body) \<Rightarrow>
          if \<not> is_migration_applied migration_name (status s) then
            (case psql body (database s) of
               (db', True) \<Rightarrow>
                 migration_loop psql date dir (Suc k) rest
                   (s\<lparr>status := mark_migration_applied migration_name (date k) (status s),
                      database := db',
                      printed := printed s @ [Applying migration_name,
                        Marked_applied migration_name, Applied_successfully migration_name]\<rparr>)
             | (db', False) \<Rightarrow>
                 (Some 1, s\<lparr>database := db',
                    printed := printed s @ [Applying migration_name,
                      Migration_failed migration_name]\<rparr>))
          else
            migration_loop psql date dir (Suc k) rest
              (s\<lparr>printed := printed s @ [Already_applied migration_name]\<rparr>)
      | _ \<Rightarrow> migration_loop psql date dir (Suc k) rest s)"

definition run_migrations ::
  "('b \<Rightarrow> 'db \<Rightarrow> 'db \<times> bool) \<Rightarrow> (nat \<Rightarrow> string) \<Rightarrow> 'b directory option \<Rightarrow>
   'db state \<Rightarrow> nat option \<times> 'db state" where
  "run_migrations psql date migrations_dir s =
     (case migrations_dir of
        Some dir \<Rightarrow>
          (case migration_loop psql date dir 0 (glob_sql dir) s of
             (None, s') \<Rightarrow> (None, s'\<lparr>printed := printed s' @ [All_processed]\<rparr>)
           | (Some code, s') \<Rightarrow> (Some code, s'))
      | None \<Rightarrow> (None, s\<lparr>printed := printed s @ [No_migrations_directory]\<rparr>))"

text \<open>The files the loop body accepts, in the order of the loop, and the names the loop
  has dealt with according to what it printed (a name is dealt with when the loop
  announces that it applies it or that it is already applied).\<close>

definition is_file :: "'b directory \<Rightarrow> string \<Rightarrow> bool" where
  "is_file dir n = (case map_of dir n of Some (File body) \<Rightarrow> True | _ \<Rightarrow> False)"

definition discovered :: "'b directory \<Rightarrow> string list" where
  "discovered dir = filter (is_file dir) (glob_sql dir)"


text \<open>\<open>appliedNames\<close> and \<open>skippedNames\<close> of a run, read off its output.\<close>

fun appliedNames :: "message list \<Rightarrow> string list" where
  "appliedNames [] = []"
| "appliedNames (Applied_successfully n # ms) = n # appliedNames ms"
| "appliedNames (m # ms) = appliedNames ms"

fun skippedNames :: "message list \<Rightarrow> string list" where
  "skippedNames [] = []"
| "skippedNames (Already_applied n # ms) = n # skippedNames ms"
| "skippedNames (m # ms) = skippedNames ms"

text \<open>The names on which \<^verbatim>\<open>psql\<close> was started: the loop announces each start.\<close>

fun psql_started :: "message list \<Rightarrow> string list" where
  "psql_started [] = []"
| "psql_started (Applying n # ms) = n # psql_started ms"
| "psql_started (m # ms) = psql_started ms"

section \<open>Waiting for the database, and the whole entrypoint\<close>

text \<open>
  \<^verbatim>\<open>until pg_isready ...; do sleep 2; done\<close>. \<open>pg_isready k\<close> tells whether the \<open>k\<close>-th poll
  (counted from 0) finds the server. The loop has no bound, so it is a partial function:
  \<open>None\<close> is the run that polls forever. The arguments count the polls that failed and
  the seconds slept so far; when the loop returns, it returns both.
\<close>

definition retry_interval :: nat where
  "retry_interval = 2"

partial_function (option) wait_for_postgres ::
  "(nat \<Rightarrow> bool) \<Rightarrow> nat \<Rightarrow> nat \<Rightarrow> (nat \<times> nat) option" where
  "wait_for_postgres pg_isready polls slept =
     (if pg_isready polls then Some (polls, slept)
      else wait_for_postgres pg_isready (Suc polls) (slept + retry_interval))"

text \<open>
  The script: wait, run the migrations, announce the start of the application, and then
  \<^verbatim>\<open>exec "$@"\<close>. The loop's \<^verbatim>\<open>exit 1\<close> ends the script early. Otherwise its last command
  replaces the shell by the command the container was started with (the image's default
  is \<^verbatim>\<open>node dist/index.js\<close>): from then on the process is that command. Creating,
  reading and writing the status file are taken to succeed (under \<^verbatim>\<open>set -e\<close> a failure
  there would end the script with the failing command's status), and the status file is
  taken to end with a newline, as every file the script writes does.
\<close>

datatype ending = Exit nat | Exec_command

text \<open>
  The result is \<open>None\<close> when the script never gets beyond the wait, and otherwise the
  way the script ends, the seconds it slept and the final state.
\<close>

definition docker_entrypoint ::
  "(nat \<Rightarrow> bool) \<Rightarrow> ('b \<Rightarrow> 'db \<Rightarrow> 'db \<times> bool) \<Rightarrow> (nat \<Rightarrow> string) \<Rightarrow>
   'b directory option \<Rightarrow> 'db state \<Rightarrow> (ending \<times> nat \<times> 'db state) option" where
  "docker_entrypoint pg_isready psql date migrations_dir s =
     (case wait_for_postgres pg_isready 0 0 of
        None \<Rightarrow> None
      | Some (polls, slept) \<Rightarrow>
          (case run_migrations psql date migrations_dir s of
             (Some code, s') \<Rightarrow> Some (Exit code, slept, s')
           | (None, s') \<Rightarrow>
               Some (Exec_command, slept,
                 s'\<lparr>printed := printed s' @ [Starting_application]\<rparr>)))"

text \<open>
  The exit status of the container's process, \<open>None\<close> while it has not ended.
  \<open>command args\<close> is the status with which \<^verbatim>\<open>exec\<close> of the command \<open>args\<close> ends: that of
  the command, or the shell's when the command cannot be started. With no arguments
  \<^verbatim>\<open>exec\<close> does nothing, and the script ends after it with status 0.
\<close>

definition process_status ::
  "(string list \<Rightarrow> nat option) \<Rightarrow> string list \<Rightarrow> (ending \<times> nat \<times> 'db state) option \<Rightarrow>
   nat option" where
  "process_status command args r =
     (case r of
        None \<Rightarrow> None
      | Some (Exit code, slept, s) \<Rightarrow> Some code
      | Some (Exec_command, slept, s) \<Rightarrow> (if args = [] then Some 0 else command args))"

section \<open>A database client for examples\<close>

text \<open>
  The theorems below hold for every behaviour of \<^verbatim>\<open>psql\<close>. The examples need one: a
  migration file is a list of statements, the database is the list of statements that
  took effect. \<^verbatim>\<open>psql -f\<close> is started without \<^verbatim>\<open>--single-transaction\<close> and without
  \<^verbatim>\<open>ON_ERROR_STOP\<close>, so each statement is committed on its own, a statement the server
  rejects is reported and the next one is run, and the exit status is 0 at the end of the
  file; when the connection is lost, \<^verbatim>\<open>psql\<close> stops with a non-zero status.
\<close>

datatype stmt = Good string | Rejected string | Connection_lost

fun psql_f :: "stmt list \<Rightarrow> string list \<Rightarrow> string list \<times> bool" where
  "psql_f [] db = (db, True)"
| "psql_f (Good q # qs) db = psql_f qs (db @ [q])"
| "psql_f (Rejected q # qs) db = psql_f qs db"
| "psql_f (Connection_lost # qs) db = (db, False)"

definition fresh :: "string list state" where
  "fresh = \<lparr>status = None, database = [], printed = []\<rparr>"

definition clock :: "nat \<Rightarrow> string" where
  "clock k = ''2024-01-01 10:00:0'' @ [char_of (48 + k mod 10)]"

section \<open>The standalone runner\<close>

text \<open>
  \<^verbatim>\<open>runUnreadMessageMigration\<close> of the TypeScript script. The file system maps a path to
  its entry; \<open>connects\<close> tells whether \<^verbatim>\<open>pool.connect()\<close> resolves; \<open>query q db\<close> is
  \<^verbatim>\<open>client.query(q)\<close>: the database session it leaves and whether the promise resolved.
  The model keeps the list of the queries sent. \<^verbatim>\<open>path.join\<close> joins with a slash and does
  not double the slash of the root directory. The four queries that inspect the schema
  after the commit are written with their white space collapsed.
\<close>

definition migrationPath :: "string \<Rightarrow> string" where
  "migrationPath cwd =
     (if cwd = ''/'' then [] else cwd) @ ''/migrations/003-add-unread-message-tracking.sql''"

definition verification_queries :: "string list" where
  "verification_queries =
    ['' SELECT column_name, data_type FROM information_schema.columns WHERE table_name = 'messages' AND column_name IN ('read_at') UNION SELECT column_name, data_type FROM information_schema.columns WHERE table_name = 'conversations' AND column_name IN ('unread_count') '',
     '' SELECT indexname FROM pg_indexes WHERE tablename IN ('messages', 'conversations') AND indexname LIKE '%unread%' OR indexname LIKE '%read_at%' '',
     '' SELECT proname FROM pg_proc WHERE proname IN ('calculate_unread_count', 'update_conversation_unread_count', 'trigger_update_unread_count') '',
     '' SELECT trigger_name FROM information_schema.triggers WHERE trigger_name = 'trigger_messages_unread_count' '']"

record 'db session =
  files :: "string \<Rightarrow> string entry option"
  db :: 'db
  sent :: "string list"

text \<open>The queries the \<^verbatim>\<open>try\<close> block awaits, in order.\<close>

definition try_block :: "string \<Rightarrow> string list" where
  "try_block migrationSQL = [''BEGIN'', migrationSQL, ''COMMIT''] @ verification_queries"

text \<open>Awaiting them one after the other, up to the first that rejects.\<close>

fun run_queries ::
  "(string \<Rightarrow> 'db \<Rightarrow> 'db \<times> bool) \<Rightarrow> string list \<Rightarrow> 'db session \<Rightarrow> bool \<times> 'db session" where
  "run_queries query [] s = (True, s)"
| "run_queries query (q # qs) s =
     (case query q (db s) of
        (db', True) \<Rightarrow> run_queries query qs (s\<lparr>db := db', sent := sent s @ [q]\<rparr>)
      | (db', False) \<Rightarrow> (False, s\<lparr>db := db', sent := sent s @ [q]\<rparr>))"

text \<open>How the function's promise ends: the process is exited inside it, it resolves, or
  it rejects (a failed \<^verbatim>\<open>pool.connect()\<close>, or a \<^verbatim>\<open>ROLLBACK\<close> that fails in the
  \<^verbatim>\<open>catch\<close> block).\<close>

datatype completion = Process_exit nat | Resolved | Rejected_promise

definition catch_block ::
  "(string \<Rightarrow> 'db \<Rightarrow> 'db \<times> bool) \<Rightarrow> 'db session \<Rightarrow> completion \<times> 'db session" where
  "catch_block query s =
     (case query ''ROLLBACK'' (db s) of
        (db', True) \<Rightarrow> (Process_exit 1, s\<lparr>db := db', sent := sent s @ [''ROLLBACK'']\<rparr>)
      | (db', False) \<Rightarrow> (Rejected_promise, s\<lparr>db := db', sent := sent s @ [''ROLLBACK'']\<rparr>))"

definition runUnreadMessageMigration ::
  "bool \<Rightarrow> (string \<Rightarrow> 'db \<Rightarrow> 'db \<times> bool) \<Rightarrow> string \<Rightarrow> 'db session \<Rightarrow>
   completion \<times> 'db session" where
  "runUnreadMessageMigration connects query cwd s =
     (if \<not> connects then (Rejected_promise, s)
      else case files s (migrationPath cwd) of
        None \<Rightarrow> (Process_exit 1, s)
      | Some Directory \<Rightarrow> catch_block query s
      | Some (File migrationSQL) \<Rightarrow>
          (case run_queries query (try_block migrationSQL) s of
             (True, s') \<Rightarrow> (Resolved, s')
           | (False, s') \<Rightarrow> catch_block query s'))"

text \<open>The script's last lines: exit 0 when the promise resolves, 1 when it rejects.\<close>

definition runner_exit_code ::
  "bool \<Rightarrow> (string \<Rightarrow> 'db \<Rightarrow> 'db \<times> bool) \<Rightarrow> string \<Rightarrow> 'db session \<Rightarrow> nat" where
  "runner_exit_code connects query cwd s =
     (case fst (runUnreadMessageMigration connects query cwd s) of
        Process_exit code \<Rightarrow> code
      | Resolved \<Rightarrow> 0
      | Rejected_promise \<Rightarrow> 1)"

text \<open>The database session after the queries \<open>qs\<close> have been sent to it one after the
  other, starting from \<open>d\<close>.\<close>

definition db_after :: "(string \<Rightarrow> 'db \<Rightarrow> 'db \<times> bool) \<Rightarrow> 'db \<Rightarrow> string list \<Rightarrow> 'db" where
  "db_after query d qs = foldl (\<lambda>d' q. fst (query q d')) d qs"

text \<open>The lines of the status file; none when the file does not exist.\<close>

definition status_lines :: "status_file \<Rightarrow> string list" where
  "status_lines sf = (case sf of None \<Rightarrow> [] | Some ls \<Rightarrow> ls)"

section \<open>Well-formed status files\<close>

text \<open>
  A status file as the script itself writes it has comment lines, which hold no colon, and
  records \<^verbatim>\<open>name:applied:timestamp\<close>, where the time stamp is made of digits, dashes,
  colons and a space (in particular it holds no letter q). \<open>wf_line\<close> looks at a
  line from its first colon on.
\<close>

definition colon_free :: "string \<Rightarrow> bool" where
  "colon_free x = (CHR '':'' \<notin> set x)"

definition from_first_colon :: "string \<Rightarrow> string" where
  "from_first_colon l = dropWhile (\<lambda>c. c \<noteq> CHR '':'') l"

definition wf_line :: "string \<Rightarrow> bool" where
  "wf_line l =
     (from_first_colon l = []
      \<or> take 9 (from_first_colon l) = '':applied:''
        \<and> CHR ''q'' \<notin> set (drop 9 (from_first_colon l)))"

definition sql_suffix :: "string \<Rightarrow> bool" where
  "sql_suffix n = (3 \<le> length n \<and> drop (length n - 3) n = ''sql'')"

definition wf_status :: "status_file \<Rightarrow> bool" where
  "wf_status sf = list_all wf_line (status_lines sf)"

section \<open>Example directories\<close>

definition three_files :: "stmt list directory" where
  "three_files =
     [(''003-z.sql'', File [Good ''CREATE TABLE z ()'']),
      (''001-x.sql'', File [Good ''CREATE TABLE x ()'']),
      (''002-y.sql'', File [Good ''CREATE TABLE y ()''])]"

text \<open>Two files whose names differ only in a dash and a dot.\<close>

definition two_versions :: "stmt list directory" where
  "two_versions =
     [(''v1-1.sql'', File [Good ''CREATE TABLE a ()'']),
      (''v1.1.sql'', File [Good ''CREATE TABLE b ()''])]"

definition v1_1_recorded :: "string list state" where
  "v1_1_recorded =
     \<lparr>status = Some [status_header, ''v1-1.sql:applied:2023-12-31 09:00:00''],
      database = [''CREATE TABLE a ()''],
      printed = []\<rparr>"

definition seed_files :: "stmt list directory" where
  "seed_files =
     [(''seed-data.sql'', File [Good ''INSERT INTO a VALUES (1)'']),
      (''seed.data.sql'', File [Good ''INSERT INTO b VALUES (2)''])]"

text \<open>Three files of which the second loses its connection, and the same directory with
  the second file repaired.\<close>

definition three_versions :: "stmt list directory" where
  "three_versions =
     [(''v1-0.sql'', File [Good ''CREATE TABLE a ()'']),
      (''v1-1.sql'', File [Connection_lost]),
      (''v1.1.sql'', File [Good ''CREATE TABLE c ()''])]"

definition three_versions_fixed :: "stmt list directory" where
  "three_versions_fixed =
     [(''v1-0.sql'', File [Good ''CREATE TABLE a ()'']),
      (''v1-1.sql'', File [Good ''CREATE TABLE b ()'']),
      (''v1.1.sql'', File [Good ''CREATE TABLE c ()''])]"

text \<open>Two files of which one has a colon in its name.\<close>

definition colon_files :: "stmt list directory" where
  "colon_files =
     [(''1-0.sql:fix.sql'', File [Good ''CREATE TABLE a ()'']),
      (''1.0.sql'', File [Good ''CREATE TABLE b ()''])]"

text \<open>A file in which the connection is lost after the first statement; a directory
  with a single good file; the state in which that file is recorded.\<close>

definition half_applied :: "stmt list directory" where
  "half_applied =
     [(''001-init.sql'',
       File [Good ''CREATE TABLE a ()'', Connection_lost, Good ''CREATE TABLE b ()''])]"

definition one_file :: "stmt list directory" where
  "one_file = [(''001-init.sql'', File [Good ''CREATE TABLE a ()''])]"

definition init_recorded :: "string list state" where
  "init_recorded =
     \<lparr>status = Some [status_header, ''001-init.sql:applied:2024-01-01 10:00:00''],
      database = [''CREATE TABLE a ()''],
      printed = []\<rparr>"

text \<open>A file whose first statement the server rejects.\<close>

definition rejected_file :: "stmt list directory" where
  "rejected_file =
     [(''001-init.sql'', File [Rejected ''CREATE TABLE a (id int'', Good ''CREATE TABLE b ()''])]"

text \<open>Two more behaviours of \<^verbatim>\<open>psql\<close>: one that always ends with status 0, whatever the
  server said about the statements, and one that never reaches the server.\<close>

definition psql_up :: "stmt list \<Rightarrow> string list \<Rightarrow> string list \<times> bool" where
  "psql_up body d = (fst (psql_f body d), True)"

definition psql_down :: "stmt list \<Rightarrow> string list \<Rightarrow> string list \<times> bool" where
  "psql_down body d = (d, False)"

section \<open>Example clients and files for the standalone runner\<close>

definition query_ok :: "string \<Rightarrow> string list \<Rightarrow> string list \<times> bool" where
  "query_ok q d = (d @ [q], True)"

definition query_rejecting :: "string \<Rightarrow> string \<Rightarrow> string list \<Rightarrow> string list \<times> bool" where
  "query_rejecting bad q d = (if q = bad then (d, False) else (d @ [q], True))"

definition app_files :: "string \<Rightarrow> string entry option" where
  "app_files path =
     (if path = ''/app/migrations/003-add-unread-message-tracking.sql''
      then Some (File ''ALTER TABLE messages ADD COLUMN read_at timestamp'')
      else if path = ''/app/data/.migration_status''
      then Some (File ''003-add-unread-message-tracking.sql:applied:2024-01-01 10:00:00'')
      else None)"

definition app_session :: "string list session" where
  "app_session = \<lparr>files = app_files, db = [], sent = []\<rparr>"

section \<open>Facts about the patterns\<close>

lemma bre_prefix_self: "bre_prefix p (p @ r)"
  by (induction p) (simp_all add: bre_char_def)


section \<open>The steps of the loop\<close>

lemma loop_step_cases [case_names not_file already applied failed]:
  assumes "\<not> is_file dir n \<Longrightarrow>
      migration_loop psql date dir k (n # ns) s = migration_loop psql date dir (Suc k) ns s \<Longrightarrow> P"
    and "\<And>body. map_of dir n = Some (File body) \<Longrightarrow> is_migration_applied n (status s) \<Longrightarrow>
      migration_loop psql date dir k (n # ns) s =
        migration_loop psql date dir (Suc k) ns (s\<lparr>printed := printed s @ [Already_applied n]\<rparr>) \<Longrightarrow> P"
    and "\<And>body db'. map_of dir n = Some (File body) \<Longrightarrow> \<not> is_migration_applied n (status s) \<Longrightarrow>
      psql body (database s) = (db', True) \<Longrightarrow>
      migration_loop psql date dir k (n # ns) s =
        migration_loop psql date dir (Suc k) ns
          (s\<lparr>status := mark_migration_applied n (date k) (status s), database := db',
             printed := printed s @ [Applying n, Marked_applied n, Applied_successfully n]\<rparr>) \<Longrightarrow> P"
    and "\<And>body db'. map_of dir n = Some (File body) \<Longrightarrow> \<not> is_migration_applied n (status s) \<Longrightarrow>
      psql body (database s) = (db', False) \<Longrightarrow>
      migration_loop psql date dir k (n # ns) s =
        (Some 1, s\<lparr>database := db', printed := printed s @ [Applying n, Migration_failed n]\<rparr>) \<Longrightarrow> P"
  shows P
proof (cases "map_of dir n")
  case None
  then show ?thesis using assms(1) by (simp add: is_file_def)
next
  case (Some e)
  show ?thesis
  proof (cases e)
    case Directory
    with Some show ?thesis using assms(1) by (simp add: is_file_def)
  next
    case (File body)
    show ?thesis
    proof (cases "is_migration_applied n (status s)")
      case True
      with Some File show ?thesis using assms(2)[of body] by simp
    next
      case False
      obtain db' ok where r: "psql body (database s) = (db', ok)" by (cases "psql body (database s)")
      show ?thesis
      proof (cases ok)
        case True
        with Some File False r show ?thesis using assms(3)[of body db'] by simp
      next
        case f: False
        with Some File False r show ?thesis using assms(4)[of body db'] by simp
      qed
    qed
  qed
qed


lemma is_file_File: "map_of dir n = Some (File body) \<Longrightarrow> is_file dir n"
  by (simp add: is_file_def)



lemma no_match_not_file:
  assumes "filter is_sql_name (dir_names dir) = []"
  shows "\<not> is_file dir ''*.sql''"
proof
  assume "is_file dir ''*.sql''"
  then have "map_of dir ''*.sql'' \<noteq> None" by (auto simp: is_file_def split: option.splits)
  then have "''*.sql'' \<in> fst ` set dir" by (simp add: map_of_eq_None_iff)
  then have "''*.sql'' \<in> set (dir_names dir)" by (simp add: dir_names_def)
  moreover have "is_sql_name ''*.sql''" by (simp add: is_sql_name_def)
  ultimately have "''*.sql'' \<in> set (filter is_sql_name (dir_names dir))" by simp
  with assms show False by simp
qed

lemma discovered_eq:
  "discovered dir = filter (is_file dir) (sort (filter is_sql_name (dir_names dir)))"
proof (cases "filter is_sql_name (dir_names dir) = []")
  case True
  then show ?thesis using no_match_not_file[OF True]
    by (simp add: discovered_def glob_sql_def)
next
  case False
  then have "sort (filter is_sql_name (dir_names dir)) \<noteq> []"
    by (metis length_sort length_0_conv)
  then show ?thesis by (simp add: discovered_def glob_sql_def Let_def)
qed


lemma run_migrations_fst:
  "fst (run_migrations psql date (Some dir) s) = fst (migration_loop psql date dir 0 (glob_sql dir) s)"
  by (cases "migration_loop psql date dir 0 (glob_sql dir) s")
     (auto simp: run_migrations_def split: option.splits)



section \<open>Reading and writing the status file\<close>

lemma grep_q_anchored: "grep_q (CHR ''^'' # pat) ls = list_ex (bre_prefix pat) ls"
  by (simp add: grep_q_def)

lemma no_status_file_nothing_applied: "\<not> is_migration_applied n None"
  by (simp add: is_migration_applied_def)

lemma is_migration_applied_Some:
  "is_migration_applied n (Some ls) = list_ex (bre_prefix (n @ '':applied:'')) ls"
  by (simp add: is_migration_applied_def grep_q_anchored)

lemma mark_migration_applied_Some:
  "mark_migration_applied n ts (Some ls) =
     (if list_ex (bre_prefix (n @ '':'')) ls
      then Some (map (\<lambda>l. if bre_prefix (n @ '':'') l then n @ '':applied:'' @ ts else l) ls)
      else Some (ls @ [n @ '':applied:'' @ ts]))"
  by (simp add: mark_migration_applied_def grep_q_anchored sed_s_line_def)

lemma mark_migration_applied_None:
  "mark_migration_applied n ts None = mark_migration_applied n ts (Some [status_header])"
  by (simp add: mark_migration_applied_def)

lemma mark_not_None: "mark_migration_applied n ts sf \<noteq> None"
  by (simp add: mark_migration_applied_def Let_def)

lemma mark_length: "length (status_lines sf) \<le> length (status_lines (mark_migration_applied n ts sf))"
  by (cases sf) (simp_all add: mark_migration_applied_None mark_migration_applied_Some status_lines_def)

lemma mark_nth:
  assumes "i < length (status_lines sf)"
  shows "status_lines (mark_migration_applied n ts sf) ! i =
     (if bre_prefix (n @ '':'') (status_lines sf ! i) then n @ '':applied:'' @ ts
      else status_lines sf ! i)"
proof (cases sf)
  case None
  with assms show ?thesis by (simp add: status_lines_def)
next
  case (Some ls)
  with assms have i: "i < length ls" by (simp add: status_lines_def)
  show ?thesis
  proof (cases "list_ex (bre_prefix (n @ '':'')) ls")
    case True
    with Some i show ?thesis by (simp add: mark_migration_applied_Some status_lines_def)
  next
    case False
    then have "\<not> bre_prefix (n @ '':'') (ls ! i)" using i by (auto simp: list_ex_iff)
    with False Some i show ?thesis
      by (simp add: mark_migration_applied_Some status_lines_def nth_append)
  qed
qed

lemma bre_prefix_self2: "bre_prefix (n @ '':applied:'') (n @ '':applied:'' @ ts)"
  using bre_prefix_self[of "n @ '':applied:''" ts] by simp

lemma mark_then_applied_Some: "is_migration_applied n (mark_migration_applied n ts (Some ls))"
proof (cases "list_ex (bre_prefix (n @ '':'')) ls")
  case True
  then obtain l where "l \<in> set ls" "bre_prefix (n @ '':'') l" by (auto simp: list_ex_iff)
  then have "n @ '':applied:'' @ ts \<in> set (map (\<lambda>l. if bre_prefix (n @ '':'') l then n @ '':applied:'' @ ts else l) ls)"
    by force
  with True show ?thesis
    using bre_prefix_self2[of n ts]
    unfolding mark_migration_applied_Some is_migration_applied_def
    by (auto simp: grep_q_anchored list_ex_iff simp del: set_map)
next
  case False
  then show ?thesis
    using bre_prefix_self2[of n ts]
    by (simp add: mark_migration_applied_Some is_migration_applied_Some)
qed

lemma mark_then_applied: "is_migration_applied n (mark_migration_applied n ts sf)"
  by (cases sf) (simp_all add: mark_migration_applied_None mark_then_applied_Some)

section \<open>What a run of the loop keeps\<close>

lemma loop_status_length:
  "length (status_lines (status s))
   \<le> length (status_lines (status (snd (migration_loop psql date dir k ns s))))"
proof (induction ns arbitrary: k s)
  case Nil
  show ?case by simp
next
  case (Cons n ns)
  show ?case
  proof (cases rule: loop_step_cases[of dir n psql date k ns s])
    case not_file
    then show ?thesis using Cons.IH[of s "Suc k"] by simp
  next
    case (already body)
    then show ?thesis
      using Cons.IH[of "s\<lparr>printed := printed s @ [Already_applied n]\<rparr>" "Suc k"] by simp
  next
    case (applied body db')
    let ?s = "s\<lparr>status := mark_migration_applied n (date k) (status s), database := db',
             printed := printed s @ [Applying n, Marked_applied n, Applied_successfully n]\<rparr>"
    have "length (status_lines (status s)) \<le> length (status_lines (status ?s))"
      using mark_length[of "status s" n "date k"] by simp
    also have "\<dots> \<le> length (status_lines (status (snd (migration_loop psql date dir (Suc k) ns ?s))))"
      by (rule Cons.IH)
    finally show ?thesis using applied by simp
  next
    case (failed body db')
    then show ?thesis by simp
  qed
qed

lemma loop_status_frame:
  assumes "i < length (status_lines (status s))"
    and "\<And>n. n \<in> set ns \<Longrightarrow> \<not> bre_prefix (n @ '':'') (status_lines (status s) ! i)"
  shows "status_lines (status (snd (migration_loop psql date dir k ns s))) ! i
         = status_lines (status s) ! i"
  using assms
proof (induction ns arbitrary: k s)
  case Nil
  show ?case by simp
next
  case (Cons n ns)
  show ?case
  proof (cases rule: loop_step_cases[of dir n psql date k ns s])
    case not_file
    then show ?thesis using Cons.IH[of s "Suc k"] Cons.prems by simp
  next
    case (already body)
    then show ?thesis
      using Cons.IH[of "s\<lparr>printed := printed s @ [Already_applied n]\<rparr>" "Suc k"] Cons.prems
      by simp
  next
    case (applied body db')
    let ?s = "s\<lparr>status := mark_migration_applied n (date k) (status s), database := db',
             printed := printed s @ [Applying n, Marked_applied n, Applied_successfully n]\<rparr>"
    have same: "status_lines (status ?s) ! i = status_lines (status s) ! i"
      using mark_nth[OF Cons.prems(1), of n "date k"] Cons.prems(2)[of n] by simp
    have len: "i < length (status_lines (status ?s))"
      using mark_length[of "status s" n "date k"] Cons.prems(1) by simp
    have "status_lines (status (snd (migration_loop psql date dir (Suc k) ns ?s))) ! i
          = status_lines (status ?s) ! i"
    proof (rule Cons.IH[OF len])
      fix m assume "m \<in> set ns"
      then show "\<not> bre_prefix (m @ '':'') (status_lines (status ?s) ! i)"
        using Cons.prems(2)[of m] same by simp
    qed
    with same applied show ?thesis by simp
  next
    case (failed body db')
    then show ?thesis by simp
  qed
qed

lemma loop_exit_code: "fst (migration_loop psql date dir k ns s) = Some c \<Longrightarrow> c = 1"
proof (induction ns arbitrary: k s)
  case Nil
  then show ?case by simp
next
  case (Cons n ns)
  show ?case
  proof (cases rule: loop_step_cases[of dir n psql date k ns s])
    case not_file
    then show ?thesis using Cons.IH[of "Suc k" s] Cons.prems by simp
  next
    case (already body)
    then show ?thesis
      using Cons.IH[of "Suc k" "s\<lparr>printed := printed s @ [Already_applied n]\<rparr>"] Cons.prems
      by simp
  next
    case (applied body db')
    then show ?thesis
      using Cons.IH[of "Suc k" "s\<lparr>status := mark_migration_applied n (date k) (status s),
             database := db',
             printed := printed s @ [Applying n, Marked_applied n, Applied_successfully n]\<rparr>"]
        Cons.prems
      by simp
  next
    case (failed body db')
    then show ?thesis using Cons.prems by simp
  qed
qed

lemma loop_failed_pending:
  "fst (migration_loop psql date dir k ns s) = Some c \<Longrightarrow>
   \<exists>n old. n \<in> set ns \<and> is_file dir n
     \<and> printed (snd (migration_loop psql date dir k ns s)) = old @ [Migration_failed n]
     \<and> \<not> is_migration_applied n (status (snd (migration_loop psql date dir k ns s)))"
proof (induction ns arbitrary: k s)
  case Nil
  then show ?case by simp
next
  case (Cons n ns)
  show ?case
  proof (cases rule: loop_step_cases[of dir n psql date k ns s])
    case not_file
    then show ?thesis using Cons.IH[of "Suc k" s] Cons.prems by auto
  next
    case (already body)
    then show ?thesis
      using Cons.IH[of "Suc k" "s\<lparr>printed := printed s @ [Already_applied n]\<rparr>"] Cons.prems
      by auto
  next
    case (applied body db')
    then show ?thesis
      using Cons.IH[of "Suc k" "s\<lparr>status := mark_migration_applied n (date k) (status s),
             database := db',
             printed := printed s @ [Applying n, Marked_applied n, Applied_successfully n]\<rparr>"]
        Cons.prems
      by auto
  next
    case (failed body db')
    then have "printed (snd (migration_loop psql date dir k (n # ns) s))
        = (printed s @ [Applying n]) @ [Migration_failed n]"
      and "\<not> is_migration_applied n (status (snd (migration_loop psql date dir k (n # ns) s)))"
      and "is_file dir n"
      by (simp_all add: is_file_File)
    then show ?thesis by (metis list.set_intros(1))
  qed
qed

lemma loop_no_failure_message:
  "fst (migration_loop psql date dir k ns s) = None \<Longrightarrow>
   Migration_failed m \<in> set (printed (snd (migration_loop psql date dir k ns s))) \<Longrightarrow>
   Migration_failed m \<in> set (printed s)"
proof (induction ns arbitrary: k s)
  case Nil
  then show ?case by simp
next
  case (Cons n ns)
  show ?case
  proof (cases rule: loop_step_cases[of dir n psql date k ns s])
    case not_file
    then show ?thesis using Cons.IH[of "Suc k" s] Cons.prems by simp
  next
    case (already body)
    then show ?thesis
      using Cons.IH[of "Suc k" "s\<lparr>printed := printed s @ [Already_applied n]\<rparr>"] Cons.prems
      by simp
  next
    case (applied body db')
    then show ?thesis
      using Cons.IH[of "Suc k" "s\<lparr>status := mark_migration_applied n (date k) (status s),
             database := db',
             printed := printed s @ [Applying n, Marked_applied n, Applied_successfully n]\<rparr>"]
        Cons.prems
      by simp
  next
    case (failed body db')
    then show ?thesis using Cons.prems by simp
  qed
qed

lemma loop_nothing_pending:
  "(\<And>n. n \<in> set ns \<Longrightarrow> is_file dir n \<Longrightarrow> is_migration_applied n (status s)) \<Longrightarrow>
   migration_loop psql date dir k ns s
     = (None, s\<lparr>printed := printed s @ map Already_applied (filter (is_file dir) ns)\<rparr>)"
proof (induction ns arbitrary: k s)
  case Nil
  show ?case by simp
next
  case (Cons n ns)
  show ?case
  proof (cases rule: loop_step_cases[of dir n psql date k ns s])
    case not_file
    then show ?thesis using Cons.IH[of s "Suc k"] Cons.prems by simp
  next
    case (already body)
    then show ?thesis
      using Cons.IH[of "s\<lparr>printed := printed s @ [Already_applied n]\<rparr>" "Suc k"] Cons.prems
      by (simp add: is_file_File)
  next
    case (applied body db')
    then show ?thesis using Cons.prems[of n] by (simp add: is_file_File)
  next
    case (failed body db')
    then show ?thesis using Cons.prems[of n] by (simp add: is_file_File)
  qed
qed

lemma loop_psql_succeeds:
  assumes "\<And>body d. snd (psql body d)"
  shows "fst (migration_loop psql date dir k ns s) = None"
proof (induction ns arbitrary: k s)
  case Nil
  show ?case by simp
next
  case (Cons n ns)
  show ?case
  proof (cases rule: loop_step_cases[of dir n psql date k ns s])
    case not_file
    then show ?thesis using Cons.IH[of "Suc k" s] by simp
  next
    case (already body)
    then show ?thesis
      using Cons.IH[of "Suc k" "s\<lparr>printed := printed s @ [Already_applied n]\<rparr>"] by simp
  next
    case (applied body db')
    then show ?thesis
      using Cons.IH[of "Suc k" "s\<lparr>status := mark_migration_applied n (date k) (status s),
             database := db',
             printed := printed s @ [Applying n, Marked_applied n, Applied_successfully n]\<rparr>"]
      by simp
  next
    case (failed body db')
    with assms[of body "database s"] show ?thesis by simp
  qed
qed

lemma loop_psql_fails:
  assumes "\<And>body d. \<not> snd (psql body d)"
    and "n \<in> set ns" "is_file dir n" "\<not> is_migration_applied n (status s)"
  shows "fst (migration_loop psql date dir k ns s) = Some 1
     \<and> status (snd (migration_loop psql date dir k ns s)) = status s"
  using assms(2-)
proof (induction ns arbitrary: k s)
  case Nil
  then show ?case by simp
next
  case (Cons m ns)
  show ?case
  proof (cases rule: loop_step_cases[of dir m psql date k ns s])
    case not_file
    with Cons.prems have "n \<in> set ns" by auto
    with not_file show ?thesis using Cons.IH[of s "Suc k"] Cons.prems by simp
  next
    case (already body)
    with Cons.prems have "n \<in> set ns" by auto
    with already show ?thesis
      using Cons.IH[of "s\<lparr>printed := printed s @ [Already_applied m]\<rparr>" "Suc k"] Cons.prems
      by simp
  next
    case (applied body db')
    with assms(1)[of body "database s"] show ?thesis by simp
  next
    case (failed body db')
    then show ?thesis by simp
  qed
qed

section \<open>The wait for the database\<close>

lemma wait_returns:
  "pg_isready (k + n) \<Longrightarrow> (\<And>j. j < n \<Longrightarrow> \<not> pg_isready (k + j)) \<Longrightarrow>
   wait_for_postgres pg_isready k t = Some (k + n, t + retry_interval * n)"
proof (induction n arbitrary: k t)
  case 0
  then show ?case by (simp add: wait_for_postgres.simps)
next
  case (Suc n)
  have not_now: "\<not> pg_isready k" using Suc.prems(2)[of 0] by simp
  have later: "pg_isready (Suc k + n)" using Suc.prems(1) by simp
  have before: "\<And>j. j < n \<Longrightarrow> \<not> pg_isready (Suc k + j)"
    using Suc.prems(2) by (metis Suc_less_eq add_Suc_shift)
  have "wait_for_postgres pg_isready (Suc k) (t + retry_interval)
        = Some (Suc k + n, t + retry_interval + retry_interval * n)"
    by (rule Suc.IH[OF later before])
  with not_now show ?case
    by (subst wait_for_postgres.simps) simp
qed

lemma wait_result:
  assumes "wait_for_postgres pg_isready k t = Some r"
  shows "pg_isready (fst r) \<and> k \<le> fst r \<and> (\<forall>j. k \<le> j \<and> j < fst r \<longrightarrow> \<not> pg_isready j)
   \<and> snd r = t + retry_interval * (fst r - k)"
  using assms
proof (induction pg_isready k t r rule: wait_for_postgres.raw_induct[rotated 1, consumes 1])
  case (1 f pg_isready k t r)
  show ?case
  proof (cases "pg_isready k")
    case True
    with 1(2) show ?thesis by auto
  next
    case False
    with 1(2) have rec: "f pg_isready (Suc k) (t + retry_interval) = Some r" by simp
    from 1(1)[OF rec] have ih: "pg_isready (fst r)" "Suc k \<le> fst r"
      "\<forall>j. Suc k \<le> j \<and> j < fst r \<longrightarrow> \<not> pg_isready j"
      "snd r = t + retry_interval + retry_interval * (fst r - Suc k)" by auto
    have "\<forall>j. k \<le> j \<and> j < fst r \<longrightarrow> \<not> pg_isready j"
      using ih(3) False by (metis Suc_leI le_neq_implies_less)
    moreover have "snd r = t + retry_interval * (fst r - k)"
    proof -
      have "fst r - k = Suc (fst r - Suc k)" using ih(2) by simp
      then show ?thesis using ih(4) by simp
    qed
    ultimately show ?thesis using ih(1,2) by simp
  qed
qed

lemma wait_forever:
  assumes "\<And>j. \<not> pg_isready j"
  shows "wait_for_postgres pg_isready k t = None"
proof (cases "wait_for_postgres pg_isready k t")
  case None
  then show ?thesis .
next
  case (Some r)
  from wait_result[OF Some] assms show ?thesis by simp
qed

lemma entrypoint_waits_first:
  assumes "docker_entrypoint pg_isready psql date dir s = Some (code, slept, s')"
  shows "\<exists>n. pg_isready n \<and> (\<forall>j<n. \<not> pg_isready j) \<and> slept = retry_interval * n"
proof -
  from assms obtain polls where w: "wait_for_postgres pg_isready 0 0 = Some (polls, slept)"
    by (auto simp: docker_entrypoint_def split: option.splits prod.splits)
  from wait_result[OF w] show ?thesis by auto
qed

lemma mark_appends:
  assumes "\<not> list_ex (bre_prefix (n @ '':'')) ls"
  shows "status_lines (mark_migration_applied n ts (Some ls)) = ls @ [n @ '':applied:'' @ ts]"
  using assms by (simp add: mark_migration_applied_Some status_lines_def)

lemma wait_ready_at_once: "wait_for_postgres (\<lambda>k. True) 0 0 = Some (0, 0)"
  by (simp add: wait_for_postgres.simps)

section \<open>Facts about the standalone runner\<close>

lemma run_queries_step:
  "run_queries query (q # qs) s =
     (if snd (query q (db s))
      then run_queries query qs (s\<lparr>db := fst (query q (db s)), sent := sent s @ [q]\<rparr>)
      else (False, s\<lparr>db := fst (query q (db s)), sent := sent s @ [q]\<rparr>))"
  by (cases "query q (db s)") (simp split: bool.splits)

lemma run_queries_files: "files (snd (run_queries query qs s)) = files s"
proof (induction qs arbitrary: s)
  case Nil
  show ?case by simp
next
  case (Cons q qs)
  show ?case
    using Cons.IH[of "s\<lparr>db := fst (query q (db s)), sent := sent s @ [q]\<rparr>"]
    by (simp add: run_queries_step del: run_queries.simps)
qed

lemma run_queries_sent: "\<exists>rest. sent (snd (run_queries query qs s)) = sent s @ rest"
proof (induction qs arbitrary: s)
  case Nil
  show ?case by simp
next
  case (Cons q qs)
  show ?case
    using Cons.IH[of "s\<lparr>db := fst (query q (db s)), sent := sent s @ [q]\<rparr>"]
    by (auto simp: run_queries_step simp del: run_queries.simps)
qed

lemma run_queries_reads:
  "db s = db t \<Longrightarrow> sent s = sent t \<Longrightarrow>
   fst (run_queries query qs s) = fst (run_queries query qs t)
   \<and> db (snd (run_queries query qs s)) = db (snd (run_queries query qs t))
   \<and> sent (snd (run_queries query qs s)) = sent (snd (run_queries query qs t))"
proof (induction qs arbitrary: s t)
  case Nil
  then show ?case by simp
next
  case (Cons q qs)
  show ?case
    using Cons.IH[of "s\<lparr>db := fst (query q (db s)), sent := sent s @ [q]\<rparr>"
        "t\<lparr>db := fst (query q (db t)), sent := sent t @ [q]\<rparr>"] Cons.prems
    by (simp add: run_queries_step del: run_queries.simps)
qed

lemma catch_block_step:
  "catch_block query s =
     (if snd (query ''ROLLBACK'' (db s)) then Process_exit 1 else Rejected_promise,
      s\<lparr>db := fst (query ''ROLLBACK'' (db s)), sent := sent s @ [''ROLLBACK'']\<rparr>)"
  by (cases "query ''ROLLBACK'' (db s)") (simp add: catch_block_def split: bool.splits)

lemma runner_cases [case_names no_connection missing directory resolved caught]:
  assumes "\<not> connects \<Longrightarrow> runUnreadMessageMigration connects query cwd s = (Rejected_promise, s) \<Longrightarrow> P"
    and "connects \<Longrightarrow> files s (migrationPath cwd) = None \<Longrightarrow>
         runUnreadMessageMigration connects query cwd s = (Process_exit 1, s) \<Longrightarrow> P"
    and "connects \<Longrightarrow> files s (migrationPath cwd) = Some Directory \<Longrightarrow>
         runUnreadMessageMigration connects query cwd s = catch_block query s \<Longrightarrow> P"
    and "\<And>sql. connects \<Longrightarrow> files s (migrationPath cwd) = Some (File sql) \<Longrightarrow>
         fst (run_queries query (try_block sql) s) \<Longrightarrow>
         runUnreadMessageMigration connects query cwd s =
           (Resolved, snd (run_queries query (try_block sql) s))
         \<Longrightarrow> P"
    and "\<And>sql. connects \<Longrightarrow> files s (migrationPath cwd) = Some (File sql) \<Longrightarrow>
         \<not> fst (run_queries query (try_block sql) s) \<Longrightarrow>
         runUnreadMessageMigration connects query cwd s =
           catch_block query
             (snd (run_queries query (try_block sql) s))
         \<Longrightarrow> P"
  shows P
proof (cases "connects")
  case False
  then show ?thesis using assms(1) by (simp add: runUnreadMessageMigration_def)
next
  case True
  show ?thesis
  proof (cases "files s (migrationPath cwd)")
    case None
    with True show ?thesis using assms(2) by (simp add: runUnreadMessageMigration_def)
  next
    case (Some e)
    show ?thesis
    proof (cases e)
      case Directory
      with True Some show ?thesis using assms(3) by (simp add: runUnreadMessageMigration_def)
    next
      case (File sql)
      let ?qs = "try_block sql"
      obtain ok s' where r: "run_queries query ?qs s = (ok, s')"
        by (cases "run_queries query ?qs s")
      show ?thesis
      proof (cases ok)
        case t: True
        have "runUnreadMessageMigration connects query cwd s = (Resolved, s')"
          unfolding runUnreadMessageMigration_def using True Some File r t by simp
        with True Some File r t show ?thesis using assms(4)[of sql] by simp
      next
        case f: False
        have "runUnreadMessageMigration connects query cwd s = catch_block query s'"
          unfolding runUnreadMessageMigration_def using True Some File r f by simp
        with True Some File r f show ?thesis using assms(5)[of sql] by simp
      qed
    qed
  qed
qed

lemma runner_files: "files (snd (runUnreadMessageMigration connects query cwd s)) = files s"
  by (cases rule: runner_cases[of connects query cwd s])
     (simp_all add: catch_block_step run_queries_files del: run_queries.simps)

lemma runner_missing_file:
  "files s (migrationPath cwd) = None \<Longrightarrow>
   runner_exit_code connects query cwd s = 1
   \<and> snd (runUnreadMessageMigration connects query cwd s) = s"
  by (simp add: runner_exit_code_def runUnreadMessageMigration_def)

lemma runner_exit_code_cases:
  "runner_exit_code connects query cwd s = 0 \<or> runner_exit_code connects query cwd s = 1"
  by (cases rule: runner_cases[of connects query cwd s])
     (simp_all add: runner_exit_code_def catch_block_step del: run_queries.simps)

lemma runner_exit_zero_iff:
  "runner_exit_code connects query cwd s = 0 \<longleftrightarrow>
     connects \<and> (\<exists>sql. files s (migrationPath cwd) = Some (File sql)
       \<and> fst (run_queries query (try_block sql) s))"
  by (cases rule: runner_cases[of connects query cwd s])
     (simp_all add: runner_exit_code_def catch_block_step del: run_queries.simps)

lemma runner_sends_begin:
  assumes "connects" "files s (migrationPath cwd) = Some (File sql)"
  shows "\<exists>rest. sent (snd (runUnreadMessageMigration connects query cwd s))
            = sent s @ ''BEGIN'' # rest
          \<and> (snd (query ''BEGIN'' (db s)) \<longrightarrow> (\<exists>rest'. rest = sql # rest'))"
proof -
  let ?qs = "try_block sql"
  let ?s1 = "s\<lparr>db := fst (query ''BEGIN'' (db s)), sent := sent s @ [''BEGIN'']\<rparr>"
  let ?s2 = "?s1\<lparr>db := fst (query sql (db ?s1)), sent := sent ?s1 @ [sql]\<rparr>"
  have sent_after: "\<exists>rest. sent (snd (run_queries query ?qs s)) = sent s @ ''BEGIN'' # rest
      \<and> (snd (query ''BEGIN'' (db s)) \<longrightarrow> (\<exists>rest'. rest = sql # rest'))"
  proof (cases "snd (query ''BEGIN'' (db s))")
    case False
    then show ?thesis by (simp add: try_block_def run_queries_step del: run_queries.simps)
  next
    case True
    show ?thesis
    proof (cases "snd (query sql (db ?s1))")
      case False
      with True show ?thesis by (simp add: try_block_def run_queries_step del: run_queries.simps)
    next
      case t2: True
      from run_queries_sent[of query "''COMMIT'' # verification_queries" ?s2]
      obtain rest where "sent (snd (run_queries query (''COMMIT'' # verification_queries) ?s2))
          = sent ?s2 @ rest" by blast
      with True t2 have "sent (snd (run_queries query ?qs s)) = sent s @ ''BEGIN'' # sql # rest"
        by (simp add: try_block_def run_queries_step del: run_queries.simps)
      then show ?thesis by simp
    qed
  qed
  then obtain rest where rest: "sent (snd (run_queries query ?qs s)) = sent s @ ''BEGIN'' # rest"
    "snd (query ''BEGIN'' (db s)) \<longrightarrow> (\<exists>rest'. rest = sql # rest')" by blast
  show ?thesis
  proof (cases rule: runner_cases[of connects query cwd s])
    case no_connection
    with assms show ?thesis by simp
  next
    case missing
    with assms show ?thesis by simp
  next
    case directory
    with assms show ?thesis by simp
  next
    case (resolved sql')
    with assms rest show ?thesis by simp
  next
    case (caught sql')
    with assms have "sent (snd (runUnreadMessageMigration connects query cwd s))
        = sent s @ ''BEGIN'' # (rest @ [''ROLLBACK''])"
      using rest(1) by (simp add: catch_block_step)
    moreover have "snd (query ''BEGIN'' (db s)) \<longrightarrow> (\<exists>rest'. rest @ [''ROLLBACK''] = sql # rest')"
      using rest(2) by auto
    ultimately show ?thesis by blast
  qed
qed

lemma runner_reads_one_path:
  assumes "files s (migrationPath cwd) = files t (migrationPath cwd)"
    and "db s = db t" and "sent s = sent t"
  shows "fst (runUnreadMessageMigration connects query cwd s)
           = fst (runUnreadMessageMigration connects query cwd t)
     \<and> db (snd (runUnreadMessageMigration connects query cwd s))
           = db (snd (runUnreadMessageMigration connects query cwd t))
     \<and> sent (snd (runUnreadMessageMigration connects query cwd s))
           = sent (snd (runUnreadMessageMigration connects query cwd t))"
proof (cases rule: runner_cases[of connects query cwd s])
  case no_connection
  with assms show ?thesis by (simp add: runUnreadMessageMigration_def)
next
  case missing
  then have "files t (migrationPath cwd) = None" using assms(1) by simp
  with missing assms(2,3) show ?thesis by (simp add: runUnreadMessageMigration_def)
next
  case directory
  then have "files t (migrationPath cwd) = Some Directory" using assms(1) by simp
  then have "runUnreadMessageMigration connects query cwd t = catch_block query t"
    using directory(1) by (simp add: runUnreadMessageMigration_def)
  with directory assms(2,3) show ?thesis by (simp add: catch_block_step)
next
  case (resolved sql)
  then have ft: "files t (migrationPath cwd) = Some (File sql)" using assms(1) by simp
  note same = run_queries_reads[OF assms(2,3), of query "try_block sql"]
  have "fst (run_queries query (try_block sql) t)" using resolved(3) same by simp
  then have "runUnreadMessageMigration connects query cwd t
      = (Resolved, snd (run_queries query (try_block sql) t))"
    using ft resolved(1) unfolding runUnreadMessageMigration_def
    by (cases "run_queries query (try_block sql) t") (simp split: bool.splits)
  with resolved(4) same show ?thesis by simp
next
  case (caught sql)
  then have ft: "files t (migrationPath cwd) = Some (File sql)" using assms(1) by simp
  note same = run_queries_reads[OF assms(2,3), of query "try_block sql"]
  have "\<not> fst (run_queries query (try_block sql) t)" using caught(3) same by simp
  then have "runUnreadMessageMigration connects query cwd t
      = catch_block query (snd (run_queries query (try_block sql) t))"
    using ft caught(1) unfolding runUnreadMessageMigration_def
    by (cases "run_queries query (try_block sql) t") (simp split: bool.splits)
  with caught(4) same show ?thesis by (simp add: catch_block_step)
qed

lemma runner_body_fails:
  assumes "connects" "files t (migrationPath cwd) = Some (File sql)"
    "snd (query ''BEGIN'' (db t))" "\<not> snd (query sql (fst (query ''BEGIN'' (db t))))"
  shows "sent (snd (runUnreadMessageMigration connects query cwd t))
           = sent t @ [''BEGIN'', sql, ''ROLLBACK'']
     \<and> runner_exit_code connects query cwd t = 1"
proof -
  let ?t1 = "t\<lparr>db := fst (query ''BEGIN'' (db t)), sent := sent t @ [''BEGIN'']\<rparr>"
  let ?t2 = "?t1\<lparr>db := fst (query sql (db ?t1)), sent := sent ?t1 @ [sql]\<rparr>"
  have r: "run_queries query (try_block sql) t = (False, ?t2)"
    using assms(3,4) by (simp add: try_block_def run_queries_step del: run_queries.simps)
  then have "runUnreadMessageMigration connects query cwd t = catch_block query ?t2"
    using assms(1,2) by (simp add: runUnreadMessageMigration_def)
  then show ?thesis
    by (simp add: runner_exit_code_def catch_block_step)
qed

lemma db_after_Nil: "db_after query d [] = d"
  by (simp add: db_after_def)

lemma db_after_Cons: "db_after query d (q # qs) = db_after query (fst (query q d)) qs"
  by (simp add: db_after_def)

lemma db_after_snoc: "db_after query d (qs @ [q]) = fst (query q (db_after query d qs))"
  by (simp add: db_after_def)

lemma run_queries_all_resolve:
  assumes "\<And>i. i < length qs \<Longrightarrow> snd (query (qs ! i) (db_after query (db s) (take i qs)))"
  shows "run_queries query qs s
     = (True, s\<lparr>db := db_after query (db s) qs, sent := sent s @ qs\<rparr>)"
  using assms
proof (induction qs arbitrary: s)
  case Nil
  show ?case by (simp add: db_after_Nil)
next
  case (Cons q qs)
  let ?s = "s\<lparr>db := fst (query q (db s)), sent := sent s @ [q]\<rparr>"
  from Cons.prems[of 0] have first: "snd (query q (db s))" by (simp add: db_after_Nil)
  have "run_queries query qs ?s
     = (True, ?s\<lparr>db := db_after query (db ?s) qs, sent := sent ?s @ qs\<rparr>)"
  proof (rule Cons.IH)
    fix i assume "i < length qs"
    with Cons.prems[of "Suc i"]
    show "snd (query (qs ! i) (db_after query (db ?s) (take i qs)))"
      by (simp add: db_after_Cons)
  qed
  with first show ?case
    by (simp add: run_queries_step db_after_Cons del: run_queries.simps)
qed

lemma run_queries_first_rejection:
  assumes "i < length qs"
    and "\<And>j. j < i \<Longrightarrow> snd (query (qs ! j) (db_after query (db s) (take j qs)))"
    and "\<not> snd (query (qs ! i) (db_after query (db s) (take i qs)))"
  shows "run_queries query qs s
     = (False, s\<lparr>db := db_after query (db s) (take (Suc i) qs),
                 sent := sent s @ take (Suc i) qs\<rparr>)"
  using assms
proof (induction qs arbitrary: s i)
  case Nil
  then show ?case by simp
next
  case (Cons q qs)
  let ?s = "s\<lparr>db := fst (query q (db s)), sent := sent s @ [q]\<rparr>"
  show ?case
  proof (cases i)
    case 0
    with Cons.prems(3) have "\<not> snd (query q (db s))" by (simp add: db_after_Nil)
    with 0 show ?thesis
      by (simp add: run_queries_step db_after_Cons db_after_Nil del: run_queries.simps)
  next
    case (Suc i')
    from Cons.prems(2)[of 0] Suc have first: "snd (query q (db s))" by (simp add: db_after_Nil)
    have "run_queries query qs ?s
       = (False, ?s\<lparr>db := db_after query (db ?s) (take (Suc i') qs),
                    sent := sent ?s @ take (Suc i') qs\<rparr>)"
    proof (rule Cons.IH)
      show "i' < length qs" using Cons.prems(1) Suc by simp
    next
      fix j assume "j < i'"
      with Cons.prems(2)[of "Suc j"] Suc
      show "snd (query (qs ! j) (db_after query (db ?s) (take j qs)))"
        by (simp add: db_after_Cons)
    next
      show "\<not> snd (query (qs ! i') (db_after query (db ?s) (take i' qs)))"
        using Cons.prems(3) Suc by (simp add: db_after_Cons)
    qed
    with first Suc show ?thesis
      by (simp add: run_queries_step db_after_Cons del: run_queries.simps)
  qed
qed

lemma run_queries_fst_iff:
  "fst (run_queries query qs s) \<longleftrightarrow>
     (\<forall>i<length qs. snd (query (qs ! i) (db_after query (db s) (take i qs))))"
proof
  assume ok: "fst (run_queries query qs s)"
  show "\<forall>i<length qs. snd (query (qs ! i) (db_after query (db s) (take i qs)))"
  proof (rule ccontr)
    assume "\<not> (\<forall>i<length qs. snd (query (qs ! i) (db_after query (db s) (take i qs))))"
    then have ex: "\<exists>i. i < length qs
        \<and> \<not> snd (query (qs ! i) (db_after query (db s) (take i qs)))" by blast
    define i where "i = (LEAST i. i < length qs
        \<and> \<not> snd (query (qs ! i) (db_after query (db s) (take i qs))))"
    from ex have i: "i < length qs"
        "\<not> snd (query (qs ! i) (db_after query (db s) (take i qs)))"
      unfolding i_def by (metis (mono_tags, lifting) LeastI_ex)+
    have before: "\<And>j. j < i \<Longrightarrow> snd (query (qs ! j) (db_after query (db s) (take j qs)))"
    proof -
      fix j assume j: "j < i"
      then have "\<not> (j < length qs
          \<and> \<not> snd (query (qs ! j) (db_after query (db s) (take j qs))))"
        unfolding i_def by (rule not_less_Least)
      with j i(1) show "snd (query (qs ! j) (db_after query (db s) (take j qs)))" by simp
    qed
    have "run_queries query qs s
       = (False, s\<lparr>db := db_after query (db s) (take (Suc i) qs),
                   sent := sent s @ take (Suc i) qs\<rparr>)"
      using i(1) before i(2) by (rule run_queries_first_rejection)
    with ok show False by simp
  qed
next
  assume "\<forall>i<length qs. snd (query (qs ! i) (db_after query (db s) (take i qs)))"
  then show "fst (run_queries query qs s)"
    using run_queries_all_resolve[of qs query s] by simp
qed

lemma run_queries_db_follows_sent:
  "\<exists>new. sent (snd (run_queries query qs s)) = sent s @ new
      \<and> db (snd (run_queries query qs s)) = db_after query (db s) new"
proof (induction qs arbitrary: s)
  case Nil
  show ?case by (simp add: db_after_Nil)
next
  case (Cons q qs)
  let ?s = "s\<lparr>db := fst (query q (db s)), sent := sent s @ [q]\<rparr>"
  show ?case
  proof (cases "snd (query q (db s))")
    case False
    then have "sent (snd (run_queries query (q # qs) s)) = sent s @ [q]
        \<and> db (snd (run_queries query (q # qs) s)) = db_after query (db s) [q]"
      by (simp add: run_queries_step db_after_Cons db_after_Nil del: run_queries.simps)
    then show ?thesis by blast
  next
    case True
    from Cons.IH[of ?s] obtain new where
      new: "sent (snd (run_queries query qs ?s)) = sent ?s @ new"
           "db (snd (run_queries query qs ?s)) = db_after query (db ?s) new" by blast
    with True have "sent (snd (run_queries query (q # qs) s)) = sent s @ (q # new)
        \<and> db (snd (run_queries query (q # qs) s)) = db_after query (db s) (q # new)"
      by (simp add: run_queries_step db_after_Cons del: run_queries.simps)
    then show ?thesis by blast
  qed
qed

lemma runner_db_follows_sent:
  "\<exists>new. sent (snd (runUnreadMessageMigration connects query cwd t)) = sent t @ new
      \<and> db (snd (runUnreadMessageMigration connects query cwd t)) = db_after query (db t) new"
proof (cases rule: runner_cases[of connects query cwd t])
  case no_connection
  then show ?thesis by (simp add: db_after_Nil)
next
  case missing
  then show ?thesis by (simp add: db_after_Nil)
next
  case directory
  then have "sent (snd (runUnreadMessageMigration connects query cwd t)) = sent t @ [''ROLLBACK'']
      \<and> db (snd (runUnreadMessageMigration connects query cwd t))
          = db_after query (db t) [''ROLLBACK'']"
    by (simp add: catch_block_step db_after_Cons db_after_Nil)
  then show ?thesis by blast
next
  case (resolved sql)
  with run_queries_db_follows_sent[of query "try_block sql" t] show ?thesis by simp
next
  case (caught sql)
  from run_queries_db_follows_sent[of query "try_block sql" t] obtain new where
    new: "sent (snd (run_queries query (try_block sql) t)) = sent t @ new"
         "db (snd (run_queries query (try_block sql) t)) = db_after query (db t) new" by blast
  with caught have "sent (snd (runUnreadMessageMigration connects query cwd t))
        = sent t @ (new @ [''ROLLBACK''])
      \<and> db (snd (runUnreadMessageMigration connects query cwd t))
          = db_after query (db t) (new @ [''ROLLBACK''])"
    by (simp add: catch_block_step db_after_snoc)
  then show ?thesis by blast
qed

lemma runner_resolves:
  assumes "connects" "files t (migrationPath cwd) = Some (File sql)"
    and "\<And>i. i < length (try_block sql) \<Longrightarrow>
       snd (query (try_block sql ! i) (db_after query (db t) (take i (try_block sql))))"
  shows "runUnreadMessageMigration connects query cwd t
     = (Resolved, t\<lparr>db := db_after query (db t) (try_block sql),
                    sent := sent t @ try_block sql\<rparr>)"
proof -
  have "run_queries query (try_block sql) t
     = (True, t\<lparr>db := db_after query (db t) (try_block sql), sent := sent t @ try_block sql\<rparr>)"
    using assms(3) by (rule run_queries_all_resolve)
  with assms(1,2) show ?thesis by (simp add: runUnreadMessageMigration_def)
qed

lemma runner_rejection:
  assumes "connects" "files t (migrationPath cwd) = Some (File sql)"
    and "i < length (try_block sql)"
    and "\<And>j. j < i \<Longrightarrow>
       snd (query (try_block sql ! j) (db_after query (db t) (take j (try_block sql))))"
    and "\<not> snd (query (try_block sql ! i) (db_after query (db t) (take i (try_block sql))))"
  shows "runUnreadMessageMigration connects query cwd t
     = (if snd (query ''ROLLBACK'' (db_after query (db t) (take (Suc i) (try_block sql))))
        then Process_exit 1 else Rejected_promise,
        t\<lparr>db := db_after query (db t) (take (Suc i) (try_block sql) @ [''ROLLBACK'']),
          sent := sent t @ take (Suc i) (try_block sql) @ [''ROLLBACK'']\<rparr>)"
proof -
  have "run_queries query (try_block sql) t
     = (False, t\<lparr>db := db_after query (db t) (take (Suc i) (try_block sql)),
                 sent := sent t @ take (Suc i) (try_block sql)\<rparr>)"
    using assms(3,4,5) by (rule run_queries_first_rejection)
  with assms(1,2) show ?thesis
    by (simp add: runUnreadMessageMigration_def catch_block_step db_after_snoc)
qed

lemma runner_exit_zero_iff_queries:
  "runner_exit_code connects query cwd t = 0 \<longleftrightarrow>
     connects \<and> (\<exists>sql. files t (migrationPath cwd) = Some (File sql)
       \<and> (\<forall>i<length (try_block sql).
            snd (query (try_block sql ! i) (db_after query (db t) (take i (try_block sql))))))"
  by (simp add: runner_exit_zero_iff run_queries_fst_iff)

lemma run_queries_sends_commit:
  assumes b: "snd (query ''BEGIN'' (db t))"
    and m: "snd (query sql (fst (query ''BEGIN'' (db t))))"
  shows "\<exists>rest. sent (snd (run_queries query (try_block sql) t))
     = sent t @ ''BEGIN'' # sql # ''COMMIT'' # rest"
proof -
  let ?t1 = "t\<lparr>db := fst (query ''BEGIN'' (db t)), sent := sent t @ [''BEGIN'']\<rparr>"
  let ?t2 = "?t1\<lparr>db := fst (query sql (db ?t1)), sent := sent ?t1 @ [sql]\<rparr>"
  let ?t3 = "?t2\<lparr>db := fst (query ''COMMIT'' (db ?t2)), sent := sent ?t2 @ [''COMMIT'']\<rparr>"
  show ?thesis
  proof (cases "snd (query ''COMMIT'' (db ?t2))")
    case False
    with b m have "sent (snd (run_queries query (try_block sql) t))
        = sent t @ ''BEGIN'' # sql # ''COMMIT'' # []"
      by (simp add: try_block_def run_queries_step del: run_queries.simps)
    then show ?thesis by blast
  next
    case True
    from run_queries_sent[of query verification_queries ?t3] obtain rest where
      "sent (snd (run_queries query verification_queries ?t3)) = sent ?t3 @ rest" by blast
    with b m True have "sent (snd (run_queries query (try_block sql) t))
        = sent t @ ''BEGIN'' # sql # ''COMMIT'' # rest"
      by (simp add: try_block_def run_queries_step del: run_queries.simps)
    then show ?thesis by blast
  qed
qed

lemma runner_sends_commit:
  assumes "connects" "files t (migrationPath cwd) = Some (File sql)"
    and "snd (query ''BEGIN'' (db t))" "snd (query sql (fst (query ''BEGIN'' (db t))))"
  shows "\<exists>rest. sent (snd (runUnreadMessageMigration connects query cwd t))
     = sent t @ ''BEGIN'' # sql # ''COMMIT'' # rest"
proof -
  from run_queries_sends_commit[OF assms(3,4)] obtain rest where
    rest: "sent (snd (run_queries query (try_block sql) t))
       = sent t @ ''BEGIN'' # sql # ''COMMIT'' # rest" by blast
  show ?thesis
  proof (cases rule: runner_cases[of connects query cwd t])
    case no_connection
    with assms show ?thesis by simp
  next
    case missing
    with assms show ?thesis by simp
  next
    case directory
    with assms show ?thesis by simp
  next
    case (resolved sql')
    with assms rest show ?thesis by simp
  next
    case (caught sql')
    with assms rest have "sent (snd (runUnreadMessageMigration connects query cwd t))
        = sent t @ ''BEGIN'' # sql # ''COMMIT'' # (rest @ [''ROLLBACK''])"
      by (simp add: catch_block_step)
    then show ?thesis by blast
  qed
qed

lemma runner_sends_body:
  assumes "connects" "files t (migrationPath cwd) = Some (File sql)"
    and "snd (query ''BEGIN'' (db t))"
  shows "\<exists>rest. sent (snd (runUnreadMessageMigration connects query cwd t))
            = sent t @ ''BEGIN'' # sql # rest
      \<and> db (snd (runUnreadMessageMigration connects query cwd t))
            = db_after query (db t) (''BEGIN'' # sql # rest)"
proof -
  from runner_sends_begin[OF assms(1,2), of query] assms(3) obtain rest where
    rest: "sent (snd (runUnreadMessageMigration connects query cwd t))
       = sent t @ ''BEGIN'' # sql # rest" by blast
  from runner_db_follows_sent[of connects query cwd t] obtain new where
    new: "sent (snd (runUnreadMessageMigration connects query cwd t)) = sent t @ new"
      "db (snd (runUnreadMessageMigration connects query cwd t)) = db_after query (db t) new"
    by blast
  from rest new(1) have "new = ''BEGIN'' # sql # rest" by simp
  with rest new(2) show ?thesis by blast
qed

lemma runner_directory:
  assumes "connects" "files t (migrationPath cwd) = Some Directory"
  shows "sent (snd (runUnreadMessageMigration connects query cwd t)) = sent t @ [''ROLLBACK'']
     \<and> db (snd (runUnreadMessageMigration connects query cwd t))
         = db_after query (db t) [''ROLLBACK'']
     \<and> runner_exit_code connects query cwd t = 1"
  using assms
  by (simp add: runUnreadMessageMigration_def runner_exit_code_def catch_block_step
      db_after_Cons db_after_Nil)

lemma runner_no_connection:
  "\<not> connects \<Longrightarrow>
   snd (runUnreadMessageMigration connects query cwd t) = t
   \<and> runner_exit_code connects query cwd t = 1"
  by (simp add: runUnreadMessageMigration_def runner_exit_code_def)

lemma try_block_begins: "take 3 (try_block sql) = [''BEGIN'', sql, ''COMMIT'']"
  by (simp add: try_block_def)

lemma try_block_length: "length (try_block sql) = 7"
  by (simp add: try_block_def verification_queries_def)

lemma db_after_query_ok: "db_after query_ok d qs = d @ qs"
  by (induction qs arbitrary: d) (simp_all add: db_after_def query_ok_def)

section \<open>Facts about the entrypoint\<close>

lemma run_migrations_loop_None:
  "fst (migration_loop psql date dir 0 (glob_sql dir) s) = None \<Longrightarrow>
   run_migrations psql date (Some dir) s =
     (None, (snd (migration_loop psql date dir 0 (glob_sql dir) s))
        \<lparr>printed := printed (snd (migration_loop psql date dir 0 (glob_sql dir) s)) @ [All_processed]\<rparr>)"
  by (cases "migration_loop psql date dir 0 (glob_sql dir) s") (simp add: run_migrations_def)

lemma run_migrations_loop_Some:
  "fst (migration_loop psql date dir 0 (glob_sql dir) s) = Some c \<Longrightarrow>
   run_migrations psql date (Some dir) s = migration_loop psql date dir 0 (glob_sql dir) s"
  by (cases "migration_loop psql date dir 0 (glob_sql dir) s") (simp add: run_migrations_def)

lemma run_migrations_no_directory:
  "run_migrations psql date None s = (None, s\<lparr>printed := printed s @ [No_migrations_directory]\<rparr>)"
  by (simp add: run_migrations_def)

lemma run_migrations_exit_code: "fst (run_migrations psql date mdir s) = Some c \<Longrightarrow> c = 1"
proof (cases mdir)
  case None
  assume "fst (run_migrations psql date mdir s) = Some c"
  with None show ?thesis by (simp add: run_migrations_no_directory)
next
  case (Some dir)
  assume "fst (run_migrations psql date mdir s) = Some c"
  with Some have "fst (migration_loop psql date dir 0 (glob_sql dir) s) = Some c"
    by (simp add: run_migrations_fst)
  then show ?thesis by (rule loop_exit_code)
qed

lemma run_migrations_failed_iff:
  "fst (run_migrations psql date mdir (s\<lparr>printed := []\<rparr>)) = Some 1 \<longleftrightarrow>
   (\<exists>n. Migration_failed n \<in> set (printed (snd (run_migrations psql date mdir (s\<lparr>printed := []\<rparr>)))))"
proof (cases mdir)
  case None
  then show ?thesis by (simp add: run_migrations_no_directory)
next
  case (Some dir)
  let ?s = "s\<lparr>printed := []\<rparr>"
  let ?r = "migration_loop psql date dir 0 (glob_sql dir) ?s"
  show ?thesis
  proof (cases "fst ?r")
    case None
    have "\<And>n. Migration_failed n \<notin> set (printed (snd ?r))"
      using loop_no_failure_message[OF None] by auto
    with None Some show ?thesis by (simp add: run_migrations_loop_None)
  next
    case (Some c)
    from loop_exit_code[OF Some] have c: "c = 1" .
    from loop_failed_pending[OF Some] obtain n old where
      "printed (snd ?r) = old @ [Migration_failed n]" by blast
    then have "Migration_failed n \<in> set (printed (snd ?r))" by simp
    with Some c \<open>mdir = Some dir\<close> show ?thesis
      using run_migrations_loop_Some[OF Some] by auto
  qed
qed

lemma entrypoint_result:
  assumes "wait_for_postgres pg_isready 0 0 = Some (polls, slept)"
  shows "docker_entrypoint pg_isready psql date mdir s =
     Some (case fst (run_migrations psql date mdir s) of
             None \<Rightarrow> Exec_command | Some c \<Rightarrow> Exit c,
           slept,
           case fst (run_migrations psql date mdir s) of
             None \<Rightarrow> (snd (run_migrations psql date mdir s))
                \<lparr>printed := printed (snd (run_migrations psql date mdir s)) @ [Starting_application]\<rparr>
           | Some c \<Rightarrow> snd (run_migrations psql date mdir s))"
  using assms
  by (cases "run_migrations psql date mdir s")
     (simp add: docker_entrypoint_def split: option.splits)

lemma entrypoint_returns:
  assumes "docker_entrypoint pg_isready psql date mdir s = Some (e, slept, s')"
  shows "\<exists>polls. wait_for_postgres pg_isready 0 0 = Some (polls, slept)"
  using assms by (auto simp: docker_entrypoint_def split: option.splits prod.splits)

lemma entrypoint_ending:
  assumes "docker_entrypoint pg_isready psql date mdir s = Some (e, slept, s')"
  shows "(e = Exit 1 \<or> e = Exec_command)
     \<and> (e = Exit 1 \<longleftrightarrow> fst (run_migrations psql date mdir s) = Some 1)"
proof -
  from entrypoint_returns[OF assms] obtain polls where
    w: "wait_for_postgres pg_isready 0 0 = Some (polls, slept)" by blast
  show ?thesis
  proof (cases "fst (run_migrations psql date mdir s)")
    case None
    with assms entrypoint_result[OF w, of psql date mdir s] show ?thesis by auto
  next
    case (Some c)
    from run_migrations_exit_code[OF Some] have "c = 1" .
    with Some assms entrypoint_result[OF w, of psql date mdir s] show ?thesis by auto
  qed
qed

lemma entrypoint_failed_message:
  assumes "docker_entrypoint pg_isready psql date mdir (s\<lparr>printed := []\<rparr>) = Some (e, slept, s')"
    and "Migration_failed n \<in> set (printed s')"
  shows "e = Exit 1"
proof -
  let ?s = "s\<lparr>printed := []\<rparr>"
  from entrypoint_returns[OF assms(1)] obtain polls where
    w: "wait_for_postgres pg_isready 0 0 = Some (polls, slept)" by blast
  have "\<exists>m. Migration_failed m \<in> set (printed (snd (run_migrations psql date mdir ?s)))"
  proof (cases "fst (run_migrations psql date mdir ?s)")
    case None
    with assms entrypoint_result[OF w, of psql date mdir ?s] show ?thesis by auto
  next
    case (Some c)
    with assms entrypoint_result[OF w, of psql date mdir ?s] show ?thesis by auto
  qed
  then have "fst (run_migrations psql date mdir ?s) = Some 1"
    using run_migrations_failed_iff[of psql date mdir s] by simp
  then show ?thesis using entrypoint_ending[OF assms(1)] by simp
qed

lemma entrypoint_no_directory:
  assumes "wait_for_postgres pg_isready 0 0 = Some (polls, slept)"
  shows "docker_entrypoint pg_isready psql date None s =
     Some (Exec_command, slept,
       s\<lparr>printed := printed s @ [No_migrations_directory, Starting_application]\<rparr>)"
  using entrypoint_result[OF assms, of psql date None s]
  by (simp add: run_migrations_no_directory)

lemma entrypoint_nothing_pending:
  assumes w: "wait_for_postgres pg_isready 0 0 = Some (polls, slept)"
    and all: "\<And>n. n \<in> set (discovered dir) \<Longrightarrow> is_migration_applied n (status s)"
  shows "docker_entrypoint pg_isready psql date (Some dir) s =
     Some (Exec_command, slept,
       s\<lparr>printed := printed s @ map Already_applied (discovered dir)
            @ [All_processed, Starting_application]\<rparr>)"
proof -
  have "migration_loop psql date dir 0 (glob_sql dir) s
      = (None, s\<lparr>printed := printed s @ map Already_applied (filter (is_file dir) (glob_sql dir))\<rparr>)"
    using all by (intro loop_nothing_pending) (simp add: discovered_def)
  then have "run_migrations psql date (Some dir) s
      = (None, s\<lparr>printed := printed s @ map Already_applied (discovered dir) @ [All_processed]\<rparr>)"
    by (simp add: run_migrations_def discovered_def)
  with entrypoint_result[OF w, of psql date "Some dir" s] show ?thesis by simp
qed

lemma run_migrations_psql_succeeds:
  assumes "\<And>body d. snd (psql body d)"
  shows "fst (run_migrations psql date mdir s) = None"
proof (cases mdir)
  case None
  then show ?thesis by (simp add: run_migrations_no_directory)
next
  case (Some dir)
  have "fst (migration_loop psql date dir 0 (glob_sql dir) s) = None"
    using assms by (rule loop_psql_succeeds)
  with Some show ?thesis by (simp add: run_migrations_fst)
qed

lemma entrypoint_psql_succeeds:
  assumes w: "wait_for_postgres pg_isready 0 0 = Some (polls, slept)"
    and ok: "\<And>body d. snd (psql body d)"
  shows "\<exists>s'. docker_entrypoint pg_isready psql date mdir s = Some (Exec_command, slept, s')"
  using entrypoint_result[OF w, of psql date mdir s]
    run_migrations_psql_succeeds[of psql date mdir s, OF ok]
  by simp

lemma entrypoint_psql_fails:
  assumes w: "wait_for_postgres pg_isready 0 0 = Some (polls, slept)"
    and bad: "\<And>body d. \<not> snd (psql body d)"
    and n: "n \<in> set (discovered dir)" "\<not> is_migration_applied n (status s)"
  shows "\<exists>s'. docker_entrypoint pg_isready psql date (Some dir) s = Some (Exit 1, slept, s')
     \<and> status s' = status s"
proof -
  let ?r = "migration_loop psql date dir 0 (glob_sql dir) s"
  have m: "n \<in> set (glob_sql dir)" "is_file dir n" using n(1) by (simp_all add: discovered_def)
  have l: "fst ?r = Some 1 \<and> status (snd ?r) = status s"
    using bad m n(2) by (rule loop_psql_fails)
  then have "run_migrations psql date (Some dir) s = ?r"
    by (intro run_migrations_loop_Some[of psql date dir s 1]) simp
  with l entrypoint_result[OF w, of psql date "Some dir" s] show ?thesis by simp
qed

lemma process_status_Exit: "process_status command args (Some (Exit c, slept, s)) = Some c"
  by (simp add: process_status_def)

lemma process_status_Exec:
  "process_status command args (Some (Exec_command, slept, s))
     = (if args = [] then Some 0 else command args)"
  by (simp add: process_status_def)

lemma process_status_None: "process_status command args None = None"
  by (simp add: process_status_def)

lemma loop_single_applied:
  assumes "map_of dir n = Some (File body)" "\<not> is_migration_applied n (status s)"
    "snd (psql body (database s))"
  shows "fst (migration_loop psql date dir k [n] s) = None
     \<and> status (snd (migration_loop psql date dir k [n] s))
         = mark_migration_applied n (date k) (status s)
     \<and> is_migration_applied n (status (snd (migration_loop psql date dir k [n] s)))
     \<and> database (snd (migration_loop psql date dir k [n] s)) = fst (psql body (database s))"
  using assms
  by (cases "psql body (database s)") (simp add: mark_then_applied)

lemma loop_single_failed:
  assumes "map_of dir n = Some (File body)" "\<not> is_migration_applied n (status s)"
    "\<not> snd (psql body (database s))"
  shows "fst (migration_loop psql date dir k [n] s) = Some 1
     \<and> status (snd (migration_loop psql date dir k [n] s)) = status s
     \<and> \<not> is_migration_applied n (status (snd (migration_loop psql date dir k [n] s)))
     \<and> database (snd (migration_loop psql date dir k [n] s)) = fst (psql body (database s))"
  using assms
  by (cases "psql body (database s)") simp

section \<open>File names without a colon\<close>

text \<open>
  When no file name holds a colon and the status file is well formed, a name whose
  pattern \<^verbatim>\<open>^name:\<close> matches a line also matches it with \<^verbatim>\<open>^name:applied:\<close>, so marking a
  pending migration always appends and never rewrites a line, and what a run has
  recorded stays recorded: a second run skips every file. The patterns are modelled for
  the file names that \<open>bre_plain\<close> accepts, so the last lemma is stated for those.
\<close>

lemma bre_prefix_append_same_length:
  "length p = length a \<Longrightarrow> bre_prefix (p @ q) (a @ b) = (bre_prefix p a \<and> bre_prefix q b)"
  by (induction p a rule: list_induct2) auto

lemma bre_prefix_append_left: "bre_prefix (p @ q) l \<Longrightarrow> bre_prefix p l"
  by (induction p l rule: bre_prefix.induct) auto

lemma bre_prefix_has_literal:
  "bre_prefix p l \<Longrightarrow> c \<in> set p \<Longrightarrow> c \<noteq> CHR ''.'' \<Longrightarrow> c \<in> set l"
  by (induction p l rule: bre_prefix.induct) (auto simp: bre_char_def)

lemma pattern_length:
  assumes "colon_free x" "CHR ''q'' \<notin> set r"
    "bre_prefix (m0 @ ''sql:'') (x @ CHR '':'' # r)"
  shows "length (m0 @ ''sql'') = length x"
  using assms
proof (induction x arbitrary: m0)
  case Nil
  show ?case
  proof (cases m0)
    case Nil
    with Nil.prems show ?thesis by (simp add: bre_char_def)
  next
    case (Cons c m0')
    with Nil.prems have "bre_prefix (m0' @ ''sql:'') r" by simp
    from bre_prefix_has_literal[OF this, of "CHR ''q''"] Nil.prems(2) show ?thesis by simp
  qed
next
  case (Cons a x')
  show ?case
  proof (cases m0)
    case (Cons c m0')
    with Cons.prems have "bre_prefix (m0' @ ''sql:'') (x' @ CHR '':'' # r)" by simp
    moreover have "colon_free x'" using Cons.prems(1) by (simp add: colon_free_def)
    ultimately have "length (m0' @ ''sql'') = length x'"
      using Cons.IH Cons.prems(2) by blast
    with Cons show ?thesis by simp
  next
    case Nil
    have cf: "CHR '':'' \<notin> set (a # x')" using Cons.prems(1) by (simp add: colon_free_def)
    from Nil Cons.prems(3) have m: "bre_prefix ''sql:'' (a # x' @ CHR '':'' # r)" by simp
    show ?thesis
    proof (cases x')
      case Nil
      with m show ?thesis by (simp add: bre_char_def)
    next
      case c2: (Cons b x'')
      show ?thesis
      proof (cases x'')
        case Nil
        with m c2 show ?thesis by (simp add: bre_char_def)
      next
        case c3: (Cons c x''')
        show ?thesis
        proof (cases x''')
          case Nil
          with c2 c3 \<open>m0 = []\<close> show ?thesis by simp
        next
          case (Cons d x4)
          with m c2 c3 cf show ?thesis by (auto simp: bre_char_def)
        qed
      qed
    qed
  qed
qed

lemma line_split: "l = takeWhile (\<lambda>c. c \<noteq> CHR '':'') l @ from_first_colon l"
  by (simp add: from_first_colon_def)

lemma name_part_colon_free: "colon_free (takeWhile (\<lambda>c. c \<noteq> CHR '':'') l)"
  by (auto simp: colon_free_def dest: set_takeWhileD)

lemma colon_free_line: "from_first_colon l = [] \<longleftrightarrow> colon_free l"
  by (auto simp: from_first_colon_def colon_free_def dropWhile_eq_Nil_conv)

lemma applied_pattern_of_colon_pattern:
  assumes wf: "wf_line l" and cf: "colon_free m" and sql: "sql_suffix m"
    and match: "bre_prefix (m @ '':'') l"
  shows "bre_prefix (m @ '':applied:'') l"
proof -
  let ?x = "takeWhile (\<lambda>c. c \<noteq> CHR '':'') l"
  let ?r = "from_first_colon l"
  have "CHR '':'' \<in> set l"
    using bre_prefix_has_literal[OF match, of "CHR '':''"] by simp
  then have "?r \<noteq> []" by (simp add: colon_free_line colon_free_def)
  with wf have r9: "take 9 ?r = '':applied:''" and noq: "CHR ''q'' \<notin> set (drop 9 ?r)"
    by (auto simp: wf_line_def)
  define ts where "ts = drop 9 ?r"
  have r: "?r = '':applied:'' @ ts"
    using r9 unfolding ts_def by (metis append_take_drop_id)
  have l: "l = ?x @ CHR '':'' # (''applied:'' @ ts)"
    using line_split[of l] r by simp
  obtain m0 where m: "m = m0 @ ''sql''"
    using sql unfolding sql_suffix_def by (metis append_take_drop_id)
  have noq': "CHR ''q'' \<notin> set (''applied:'' @ ts)" using noq ts_def by simp
  have "bre_prefix (m0 @ ''sql:'') (?x @ CHR '':'' # (''applied:'' @ ts))"
    using match m l by simp
  from pattern_length[OF name_part_colon_free noq' this]
  have len: "length m = length ?x" using m by simp
  have "bre_prefix (m @ '':'') (?x @ ('':applied:'' @ ts))"
    using match l by simp
  then have "bre_prefix m ?x" using len by (simp add: bre_prefix_append_same_length)
  then have "bre_prefix (m @ '':applied:'') (?x @ ('':applied:'' @ ts))"
    using len bre_prefix_self[of "'':applied:''" ts]
    by (simp add: bre_prefix_append_same_length)
  then show ?thesis using l by simp
qed

lemma wf_header: "wf_line status_header"
  by (simp add: wf_line_def from_first_colon_def status_header_def)

lemma dropWhile_to_colon:
  "CHR '':'' \<notin> set n \<Longrightarrow> dropWhile (\<lambda>c. c \<noteq> CHR '':'') (n @ CHR '':'' # r) = CHR '':'' # r"
  by (induction n) auto

lemma from_first_colon_record:
  "colon_free n \<Longrightarrow> from_first_colon (n @ '':applied:'' @ ts) = '':applied:'' @ ts"
  using dropWhile_to_colon[of n "''applied:'' @ ts"]
  by (simp add: from_first_colon_def colon_free_def)

lemma wf_record: "colon_free n \<Longrightarrow> CHR ''q'' \<notin> set ts \<Longrightarrow> wf_line (n @ '':applied:'' @ ts)"
  using from_first_colon_record[of n ts] by (simp add: wf_line_def)

lemma sql_name_suffix: "is_sql_name n \<Longrightarrow> sql_suffix n"
proof -
  assume "is_sql_name n"
  then have len: "4 < length n" and d: "drop (length n - 4) n = ''.sql''"
    by (simp_all add: is_sql_name_def)
  have "length n - 3 = 1 + (length n - 4)" using len by arith
  then have "drop (length n - 3) n = drop 1 (drop (length n - 4) n)"
    by (simp only: drop_drop)
  with d len show ?thesis by (simp add: sql_suffix_def)
qed

lemma discovered_sql_name: "n \<in> set (discovered dir) \<Longrightarrow> is_sql_name n"
  by (simp add: discovered_eq)

lemma header_has_no_colon_match: "\<not> bre_prefix (n @ '':'') status_header"
proof
  assume "bre_prefix (n @ '':'') status_header"
  from bre_prefix_has_literal[OF this, of "CHR '':''"] show False
    by (simp add: status_header_def)
qed

lemma mark_appends_when_well_formed:
  assumes wf: "wf_status sf" and cf: "colon_free n" and sql: "sql_suffix n"
    and pending: "\<not> is_migration_applied n sf"
  shows "mark_migration_applied n ts sf
         = Some ((case sf of None \<Rightarrow> [status_header] | Some ls \<Rightarrow> ls) @ [n @ '':applied:'' @ ts])"
proof (cases sf)
  case None
  then show ?thesis
    using header_has_no_colon_match[of n]
    by (simp add: mark_migration_applied_None mark_migration_applied_Some)
next
  case (Some ls)
  have "\<not> list_ex (bre_prefix (n @ '':'')) ls"
  proof
    assume "list_ex (bre_prefix (n @ '':'')) ls"
    then obtain l where l: "l \<in> set ls" "bre_prefix (n @ '':'') l"
      by (auto simp: list_ex_iff)
    then have "wf_line l" using wf Some by (simp add: wf_status_def status_lines_def list_all_iff)
    from applied_pattern_of_colon_pattern[OF this cf sql l(2)] l(1)
    have "is_migration_applied n sf"
      using Some by (auto simp: is_migration_applied_Some list_ex_iff)
    with pending show False by simp
  qed
  with Some show ?thesis by (simp add: mark_migration_applied_Some)
qed

lemma mark_keeps_well_formed:
  assumes "wf_status sf" "colon_free n" "sql_suffix n" "\<not> is_migration_applied n sf"
    "CHR ''q'' \<notin> set ts"
  shows "wf_status (mark_migration_applied n ts sf)"
  using assms wf_header wf_record[of n ts]
  unfolding mark_appends_when_well_formed[OF assms(1-4)]
  by (cases sf) (simp_all add: wf_status_def status_lines_def)

lemma mark_keeps_applied:
  assumes "wf_status sf" "colon_free n" "sql_suffix n" "\<not> is_migration_applied n sf"
    "is_migration_applied m sf"
  shows "is_migration_applied m (mark_migration_applied n ts sf)"
  using assms(5)
  unfolding mark_appends_when_well_formed[OF assms(1-4)]
  by (cases sf) (simp_all add: is_migration_applied_def grep_q_anchored)

lemma loop_keeps_records:
  assumes "wf_status (status s)"
    and "\<And>n. n \<in> set ns \<Longrightarrow> is_file dir n \<Longrightarrow> colon_free n \<and> sql_suffix n"
    and "\<And>k. CHR ''q'' \<notin> set (date k)"
    and "fst (migration_loop psql date dir k ns s) = None"
  shows "wf_status (status (snd (migration_loop psql date dir k ns s)))
     \<and> (\<forall>m. is_migration_applied m (status s) \<longrightarrow>
            is_migration_applied m (status (snd (migration_loop psql date dir k ns s))))
     \<and> (\<forall>n \<in> set ns. is_file dir n \<longrightarrow>
            is_migration_applied n (status (snd (migration_loop psql date dir k ns s))))"
  using assms(1,2,4)
proof (induction ns arbitrary: k s)
  case Nil
  then show ?case by simp
next
  case (Cons n ns)
  have names: "\<And>m. m \<in> set ns \<Longrightarrow> is_file dir m \<Longrightarrow> colon_free m \<and> sql_suffix m"
    using Cons.prems(2) by simp
  show ?case
  proof (cases rule: loop_step_cases[of dir n psql date k ns s])
    case not_file
    with Cons.IH[OF Cons.prems(1) names, of "Suc k"] Cons.prems(3) show ?thesis by simp
  next
    case (already body)
    let ?s = "s\<lparr>printed := printed s @ [Already_applied n]\<rparr>"
    have "wf_status (status ?s)" using Cons.prems(1) by simp
    from Cons.IH[OF this names, of "Suc k"] already Cons.prems(3)
    show ?thesis by simp
  next
    case (applied body db')
    let ?s = "s\<lparr>status := mark_migration_applied n (date k) (status s), database := db',
             printed := printed s @ [Applying n, Marked_applied n, Applied_successfully n]\<rparr>"
    have n: "colon_free n" "sql_suffix n"
      using Cons.prems(2)[of n] applied(1) by (simp_all add: is_file_File)
    have wf: "wf_status (status ?s)"
      using mark_keeps_well_formed[OF Cons.prems(1) n applied(2) assms(3)[of k]] by simp
    have kept: "\<And>m. is_migration_applied m (status s) \<Longrightarrow> is_migration_applied m (status ?s)"
      using mark_keeps_applied[OF Cons.prems(1) n applied(2)] by simp
    have now: "is_migration_applied n (status ?s)" by (simp add: mark_then_applied)
    from Cons.IH[OF wf names, of "Suc k"] applied Cons.prems(3) kept now
    show ?thesis by simp
  next
    case (failed body db')
    with Cons.prems(3) show ?thesis by simp
  qed
qed

lemma loop_only_appends:
  assumes "wf_status (status s)"
    and "\<And>n. n \<in> set ns \<Longrightarrow> is_file dir n \<Longrightarrow> colon_free n \<and> sql_suffix n"
    and "\<And>k. CHR ''q'' \<notin> set (date k)"
  shows "\<exists>new. status_lines (status (snd (migration_loop psql date dir k ns s)))
     = status_lines (status s) @ new"
  using assms(1,2)
proof (induction ns arbitrary: k s)
  case Nil
  then show ?case by simp
next
  case (Cons n ns)
  have names: "\<And>m. m \<in> set ns \<Longrightarrow> is_file dir m \<Longrightarrow> colon_free m \<and> sql_suffix m"
    using Cons.prems(2) by simp
  show ?case
  proof (cases rule: loop_step_cases[of dir n psql date k ns s])
    case not_file
    with Cons.IH[OF Cons.prems(1) names, of "Suc k"] show ?thesis by simp
  next
    case (already body)
    let ?s = "s\<lparr>printed := printed s @ [Already_applied n]\<rparr>"
    have "wf_status (status ?s)" using Cons.prems(1) by simp
    from Cons.IH[OF this names, of "Suc k"] already show ?thesis by simp
  next
    case (applied body db')
    let ?s = "s\<lparr>status := mark_migration_applied n (date k) (status s), database := db',
             printed := printed s @ [Applying n, Marked_applied n, Applied_successfully n]\<rparr>"
    have n: "colon_free n" "sql_suffix n"
      using Cons.prems(2)[of n] applied(1) by (simp_all add: is_file_File)
    have wf: "wf_status (status ?s)"
      using mark_keeps_well_formed[OF Cons.prems(1) n applied(2) assms(3)[of k]] by simp
    have "\<exists>one. status_lines (status ?s) = status_lines (status s) @ one"
      using mark_appends_when_well_formed[OF Cons.prems(1) n applied(2), of "date k"]
      by (cases "status s") (simp_all add: status_lines_def)
    then obtain one where one: "status_lines (status ?s) = status_lines (status s) @ one" ..
    from Cons.IH[OF wf names, of "Suc k"] obtain new where
      "status_lines (status (snd (migration_loop psql date dir (Suc k) ns ?s)))
        = status_lines (status ?s) @ new" by blast
    with one applied(4) have "status_lines (status (snd (migration_loop psql date dir k (n # ns) s)))
        = status_lines (status s) @ (one @ new)" by simp
    then show ?thesis by blast
  next
    case (failed body db')
    then show ?thesis by simp
  qed
qed

lemma second_run_skips_everything:
  assumes "list_all colon_free (discovered dir)"
    and "wf_status (status s)"
    and "\<And>k. CHR ''q'' \<notin> set (date k)"
    and "fst (run_migrations psql date (Some dir) s) = None"
    and "list_all bre_plain (discovered dir)"
  shows "run_migrations psql2 date2 (Some dir) (snd (run_migrations psql date (Some dir) s))
     = (None, (snd (run_migrations psql date (Some dir) s))
          \<lparr>printed := printed (snd (run_migrations psql date (Some dir) s))
             @ map Already_applied (discovered dir) @ [All_processed]\<rparr>)"
proof -
  let ?r = "migration_loop psql date dir 0 (glob_sql dir) s"
  let ?s1 = "snd (run_migrations psql date (Some dir) s)"
  have none: "fst ?r = None" using assms(4) by (simp add: run_migrations_fst)
  have names: "\<And>n. n \<in> set (glob_sql dir) \<Longrightarrow> is_file dir n \<Longrightarrow> colon_free n \<and> sql_suffix n"
  proof -
    fix n assume "n \<in> set (glob_sql dir)" "is_file dir n"
    then have d: "n \<in> set (discovered dir)" by (simp add: discovered_def)
    with assms(1) have "colon_free n" by (simp add: list_all_iff)
    moreover have "sql_suffix n" using d discovered_sql_name sql_name_suffix by blast
    ultimately show "colon_free n \<and> sql_suffix n" ..
  qed
  from loop_keeps_records[OF assms(2) names assms(3) none]
  have all: "\<And>n. n \<in> set (glob_sql dir) \<Longrightarrow> is_file dir n \<Longrightarrow>
      is_migration_applied n (status (snd ?r))" by blast
  have s1: "status ?s1 = status (snd ?r)"
    using none by (simp add: run_migrations_loop_None)
  have "migration_loop psql2 date2 dir 0 (glob_sql dir) ?s1
      = (None, ?s1\<lparr>printed := printed ?s1 @ map Already_applied (filter (is_file dir) (glob_sql dir))\<rparr>)"
    using all s1 by (intro loop_nothing_pending) simp
  then show ?thesis by (simp add: run_migrations_def discovered_def)
qed

section \<open>Which migrations a run applies\<close>

text \<open>
  C1. A run is to apply exactly the migrations that are not recorded as applied, in the
  order of discovery, and to skip the recorded ones. The script does not compare names:
  it looks for a line that the pattern made of the name matches, and in a pattern a dot
  matches any character. With \<^verbatim>\<open>v1-1.sql\<close> recorded and \<^verbatim>\<open>v1.1.sql\<close> not, and both
  files present, the run reports \<^verbatim>\<open>v1.1.sql\<close> as already applied and never starts
  \<^verbatim>\<open>psql\<close> on it: the database and the status file are as before.
\<close>

theorem unrecorded_migration_is_skipped:
  "run_migrations psql_f clock (Some two_versions) v1_1_recorded =
     (None,
      \<lparr>status = Some [status_header, ''v1-1.sql:applied:2023-12-31 09:00:00''],
       database = [''CREATE TABLE a ()''],
       printed = [Already_applied ''v1-1.sql'', Already_applied ''v1.1.sql'', All_processed]\<rparr>)
   \<and> discovered two_versions = [''v1-1.sql'', ''v1.1.sql'']
   \<and> list_all bre_plain (discovered two_versions)
   \<and> is_migration_applied ''v1.1.sql'' (status v1_1_recorded)
   \<and> appliedNames (printed (snd (run_migrations psql_f clock (Some two_versions) v1_1_recorded)))
       = []
   \<and> skippedNames (printed (snd (run_migrations psql_f clock (Some two_versions) v1_1_recorded)))
       = [''v1-1.sql'', ''v1.1.sql'']"
  by code_simp

section \<open>Stopping at the first failure\<close>

text \<open>
  C2. A run stops at the first migration on which \<^verbatim>\<open>psql\<close> fails, with exit status 1,
  and leaves the failed migration and the later ones unrecorded; the next run, after the
  file is repaired, is to apply the failed migration and the later ones. With three
  pending files of which the second fails, the first run does stop there. The second run
  applies the repaired \<^verbatim>\<open>v1-1.sql\<close> and then skips the later \<^verbatim>\<open>v1.1.sql\<close>, whose pattern
  matches the line just written for \<^verbatim>\<open>v1-1.sql\<close>.
\<close>

theorem later_migration_is_skipped_after_repair:
  "discovered three_versions = [''v1-0.sql'', ''v1-1.sql'', ''v1.1.sql'']
   \<and> list_all bre_plain (discovered three_versions)
   \<and> run_migrations psql_f clock (Some three_versions) fresh =
     (Some 1,
      \<lparr>status = Some [status_header, ''v1-0.sql:applied:2024-01-01 10:00:00''],
       database = [''CREATE TABLE a ()''],
       printed = [Applying ''v1-0.sql'', Marked_applied ''v1-0.sql'',
         Applied_successfully ''v1-0.sql'', Applying ''v1-1.sql'',
         Migration_failed ''v1-1.sql'']\<rparr>)
   \<and> run_migrations psql_f clock (Some three_versions_fixed)
       \<lparr>status = Some [status_header, ''v1-0.sql:applied:2024-01-01 10:00:00''],
        database = [''CREATE TABLE a ()''],
        printed = []\<rparr> =
     (None,
      \<lparr>status = Some [status_header, ''v1-0.sql:applied:2024-01-01 10:00:00'',
         ''v1-1.sql:applied:2024-01-01 10:00:01''],
       database = [''CREATE TABLE a ()'', ''CREATE TABLE b ()''],
       printed = [Already_applied ''v1-0.sql'', Applying ''v1-1.sql'',
         Marked_applied ''v1-1.sql'', Applied_successfully ''v1-1.sql'',
         Already_applied ''v1.1.sql'', All_processed]\<rparr>)"
  by code_simp

text \<open>
  The loop takes the exit status of \<^verbatim>\<open>psql\<close> as the outcome of a migration. A statement
  that the server rejects does not change that status, since \<^verbatim>\<open>ON_ERROR_STOP\<close> is not set:
  in the example client a file with a rejected statement is recorded as applied.
\<close>

lemma rejected_statement_is_recorded:
  "run_migrations psql_f clock (Some rejected_file) fresh =
     (None,
      \<lparr>status = Some [status_header, ''001-init.sql:applied:2024-01-01 10:00:00''],
       database = [''CREATE TABLE b ()''],
       printed = [Applying ''001-init.sql'', Marked_applied ''001-init.sql'',
         Applied_successfully ''001-init.sql'', All_processed]\<rparr>)"
  by code_simp

section \<open>Running twice\<close>

text \<open>
  C3. A second run right after a fully successful one is to start \<^verbatim>\<open>psql\<close> on nothing
  and to apply nothing. With a file named \<^verbatim>\<open>1-0.sql:fix.sql\<close> and a file named
  \<^verbatim>\<open>1.0.sql\<close>, the first run applies both; marking \<^verbatim>\<open>1.0.sql\<close> rewrites the line of
  \<^verbatim>\<open>1-0.sql:fix.sql\<close>, which the pattern \<^verbatim>\<open>^1.0.sql:\<close> matches, so the second run applies
  \<^verbatim>\<open>1-0.sql:fix.sql\<close> once more. (With file names that hold no colon the second run does
  skip every file: \<open>second_run_skips_everything\<close>.)
\<close>

theorem second_run_applies_again:
  "discovered colon_files = [''1-0.sql:fix.sql'', ''1.0.sql'']
   \<and> list_all bre_plain (discovered colon_files)
   \<and> run_migrations psql_f clock (Some colon_files) fresh =
     (None,
      \<lparr>status = Some [status_header, ''1.0.sql:applied:2024-01-01 10:00:01''],
       database = [''CREATE TABLE a ()'', ''CREATE TABLE b ()''],
       printed = [Applying ''1-0.sql:fix.sql'', Marked_applied ''1-0.sql:fix.sql'',
         Applied_successfully ''1-0.sql:fix.sql'', Applying ''1.0.sql'',
         Marked_applied ''1.0.sql'', Applied_successfully ''1.0.sql'', All_processed]\<rparr>)
   \<and> run_migrations psql_f clock (Some colon_files)
       \<lparr>status = Some [status_header, ''1.0.sql:applied:2024-01-01 10:00:01''],
        database = [''CREATE TABLE a ()'', ''CREATE TABLE b ()''],
        printed = []\<rparr> =
     (None,
      \<lparr>status = Some [status_header, ''1.0.sql:applied:2024-01-01 10:00:01'',
         ''1-0.sql:fix.sql:applied:2024-01-01 10:00:00''],
       database = [''CREATE TABLE a ()'', ''CREATE TABLE b ()'', ''CREATE TABLE a ()''],
       printed = [Applying ''1-0.sql:fix.sql'', Marked_applied ''1-0.sql:fix.sql'',
         Applied_successfully ''1-0.sql:fix.sql'', Already_applied ''1.0.sql'',
         All_processed]\<rparr>)
   \<and> psql_started (printed (snd (run_migrations psql_f clock (Some colon_files)
       \<lparr>status = Some [status_header, ''1.0.sql:applied:2024-01-01 10:00:01''],
        database = [''CREATE TABLE a ()'', ''CREATE TABLE b ()''],
        printed = []\<rparr>)))
     = [''1-0.sql:fix.sql'']"
  by code_simp

section \<open>Applying one migration\<close>

text \<open>
  C4. The entrypoint applies one pending migration by running \<^verbatim>\<open>psql\<close> on its file, with
  no transaction of its own, and writes the record only after \<^verbatim>\<open>psql\<close> has ended with
  status 0: the migration is then reported as applied. When \<^verbatim>\<open>psql\<close> ends with another
  status, the script exits with 1, the status file is exactly as before, the migration
  is still reported as not applied, and the database is as \<^verbatim>\<open>psql\<close> left it. Whenever the
  loop exits with 1, the last line printed names the failed migration, and that
  migration is not recorded. The standalone runner changes no file; when the migration's
  text fails after \<^verbatim>\<open>BEGIN\<close>, it sends \<^verbatim>\<open>ROLLBACK\<close> and exits with 1, and when the text
  resolves, the next query it sends is \<^verbatim>\<open>COMMIT\<close>. The statement is for the file names
  that \<open>bre_plain\<close> accepts.
\<close>

theorem record_written_only_after_psql_succeeds:
  assumes "bre_plain n" and "list_all bre_plain ns"
  shows "(map_of dir n = Some (File body) \<and> \<not> is_migration_applied n (status s)
      \<and> snd (psql body (database s)) \<longrightarrow>
      fst (migration_loop psql date dir k [n] s) = None
      \<and> status (snd (migration_loop psql date dir k [n] s))
          = mark_migration_applied n (date k) (status s)
      \<and> is_migration_applied n (status (snd (migration_loop psql date dir k [n] s)))
      \<and> database (snd (migration_loop psql date dir k [n] s)) = fst (psql body (database s)))
   \<and> (map_of dir n = Some (File body) \<and> \<not> is_migration_applied n (status s)
      \<and> \<not> snd (psql body (database s)) \<longrightarrow>
      fst (migration_loop psql date dir k [n] s) = Some 1
      \<and> status (snd (migration_loop psql date dir k [n] s)) = status s
      \<and> \<not> is_migration_applied n (status (snd (migration_loop psql date dir k [n] s)))
      \<and> database (snd (migration_loop psql date dir k [n] s)) = fst (psql body (database s)))
   \<and> (fst (migration_loop psql date dir k ns s) = Some c \<longrightarrow>
      c = 1 \<and> (\<exists>m old. m \<in> set ns \<and> is_file dir m
        \<and> printed (snd (migration_loop psql date dir k ns s)) = old @ [Migration_failed m]
        \<and> \<not> is_migration_applied m (status (snd (migration_loop psql date dir k ns s)))))
   \<and> files (snd (runUnreadMessageMigration connects query cwd t)) = files t
   \<and> (connects \<and> files t (migrationPath cwd) = Some (File sql)
      \<and> snd (query ''BEGIN'' (db t)) \<and> \<not> snd (query sql (fst (query ''BEGIN'' (db t)))) \<longrightarrow>
      sent (snd (runUnreadMessageMigration connects query cwd t))
        = sent t @ [''BEGIN'', sql, ''ROLLBACK'']
      \<and> runner_exit_code connects query cwd t = 1)
   \<and> (connects \<and> files t (migrationPath cwd) = Some (File sql)
      \<and> snd (query ''BEGIN'' (db t)) \<and> snd (query sql (fst (query ''BEGIN'' (db t)))) \<longrightarrow>
      (\<exists>rest. sent (snd (runUnreadMessageMigration connects query cwd t))
         = sent t @ ''BEGIN'' # sql # ''COMMIT'' # rest))"
proof (intro conjI)
  show "map_of dir n = Some (File body) \<and> \<not> is_migration_applied n (status s)
      \<and> snd (psql body (database s)) \<longrightarrow>
      fst (migration_loop psql date dir k [n] s) = None
      \<and> status (snd (migration_loop psql date dir k [n] s))
          = mark_migration_applied n (date k) (status s)
      \<and> is_migration_applied n (status (snd (migration_loop psql date dir k [n] s)))
      \<and> database (snd (migration_loop psql date dir k [n] s)) = fst (psql body (database s))"
    using loop_single_applied[of dir n body s psql date k] by blast
next
  show "map_of dir n = Some (File body) \<and> \<not> is_migration_applied n (status s)
      \<and> \<not> snd (psql body (database s)) \<longrightarrow>
      fst (migration_loop psql date dir k [n] s) = Some 1
      \<and> status (snd (migration_loop psql date dir k [n] s)) = status s
      \<and> \<not> is_migration_applied n (status (snd (migration_loop psql date dir k [n] s)))
      \<and> database (snd (migration_loop psql date dir k [n] s)) = fst (psql body (database s))"
    using loop_single_failed[of dir n body s psql date k] by blast
next
  show "fst (migration_loop psql date dir k ns s) = Some c \<longrightarrow>
      c = 1 \<and> (\<exists>m old. m \<in> set ns \<and> is_file dir m
        \<and> printed (snd (migration_loop psql date dir k ns s)) = old @ [Migration_failed m]
        \<and> \<not> is_migration_applied m (status (snd (migration_loop psql date dir k ns s))))"
    using loop_exit_code[of psql date dir k ns s c] loop_failed_pending[of psql date dir k ns s c]
    by blast
next
  show "files (snd (runUnreadMessageMigration connects query cwd t)) = files t"
    by (rule runner_files)
next
  show "connects \<and> files t (migrationPath cwd) = Some (File sql)
      \<and> snd (query ''BEGIN'' (db t)) \<and> \<not> snd (query sql (fst (query ''BEGIN'' (db t)))) \<longrightarrow>
      sent (snd (runUnreadMessageMigration connects query cwd t))
        = sent t @ [''BEGIN'', sql, ''ROLLBACK'']
      \<and> runner_exit_code connects query cwd t = 1"
    using runner_body_fails[of connects t cwd sql query] by blast
next
  show "connects \<and> files t (migrationPath cwd) = Some (File sql)
      \<and> snd (query ''BEGIN'' (db t)) \<and> snd (query sql (fst (query ''BEGIN'' (db t)))) \<longrightarrow>
      (\<exists>rest. sent (snd (runUnreadMessageMigration connects query cwd t))
         = sent t @ ''BEGIN'' # sql # ''COMMIT'' # rest)"
    using runner_sends_commit[of connects t cwd sql query] by blast
qed

theorem record_written_only_after_psql_succeeds_witness:
  "fst (migration_loop psql_f clock half_applied 0 [''001-init.sql''] fresh) = Some 1
   \<and> status (snd (migration_loop psql_f clock half_applied 0 [''001-init.sql''] fresh)) = None
   \<and> \<not> is_migration_applied ''001-init.sql''
        (status (snd (migration_loop psql_f clock half_applied 0 [''001-init.sql''] fresh)))
   \<and> is_migration_applied ''001-init.sql''
        (status (snd (migration_loop psql_f clock one_file 0 [''001-init.sql''] fresh)))
   \<and> sent (snd (runUnreadMessageMigration True
        (query_rejecting ''ALTER TABLE messages ADD COLUMN read_at timestamp'') ''/app'' app_session))
      = [''BEGIN'', ''ALTER TABLE messages ADD COLUMN read_at timestamp'', ''ROLLBACK'']
   \<and> (\<exists>old. printed (snd (migration_loop psql_f clock half_applied 0 [''001-init.sql''] fresh))
        = old @ [Migration_failed ''001-init.sql''])
   \<and> (\<exists>rest. sent (snd (runUnreadMessageMigration True query_ok ''/app'' app_session))
        = ''BEGIN'' # ''ALTER TABLE messages ADD COLUMN read_at timestamp'' # ''COMMIT'' # rest)"
proof -
  let ?body = "[Good ''CREATE TABLE a ()'', Connection_lost, Good ''CREATE TABLE b ()'']"
  let ?sql = "''ALTER TABLE messages ADD COLUMN read_at timestamp''"
  have h1: "map_of half_applied ''001-init.sql'' = Some (File ?body)
      \<and> \<not> is_migration_applied ''001-init.sql'' (status fresh)
      \<and> \<not> snd (psql_f ?body (database fresh))"
    by code_simp
  have h2: "map_of one_file ''001-init.sql'' = Some (File [Good ''CREATE TABLE a ()''])
      \<and> \<not> is_migration_applied ''001-init.sql'' (status fresh)
      \<and> snd (psql_f [Good ''CREATE TABLE a ()''] (database fresh))"
    by code_simp
  have h3: "True \<and> files app_session (migrationPath ''/app'') = Some (File ?sql)
      \<and> snd (query_rejecting ?sql ''BEGIN'' (db app_session))
      \<and> \<not> snd (query_rejecting ?sql ?sql (fst (query_rejecting ?sql ''BEGIN'' (db app_session))))"
    by code_simp
  have p1: "bre_plain ''001-init.sql''" by code_simp
  have p2: "list_all bre_plain []" by simp
  have p3: "list_all bre_plain [''001-init.sql'']" by code_simp
  have exits: "fst (migration_loop psql_f clock half_applied 0 [''001-init.sql''] fresh) = Some 1"
    by code_simp
  have last: "\<exists>old. printed (snd (migration_loop psql_f clock half_applied 0 [''001-init.sql''] fresh))
        = old @ [Migration_failed ''001-init.sql'']"
    using record_written_only_after_psql_succeeds[OF p1 p3, where dir = half_applied
        and body = ?body and s = fresh and psql = psql_f and date = clock and k = 0
        and c = 1 and connects = True and query = "query_rejecting ?sql"
        and cwd = "''/app''" and t = app_session and sql = ?sql] exits
    by auto
  have h4: "True \<and> files app_session (migrationPath ''/app'') = Some (File ?sql)
      \<and> snd (query_ok ''BEGIN'' (db app_session))
      \<and> snd (query_ok ?sql (fst (query_ok ''BEGIN'' (db app_session))))"
    by code_simp
  have committed: "\<exists>rest. sent (snd (runUnreadMessageMigration True query_ok ''/app'' app_session))
        = sent app_session @ ''BEGIN'' # ?sql # ''COMMIT'' # rest"
    using record_written_only_after_psql_succeeds[OF p1 p2, where dir = one_file
        and body = "[Good ''CREATE TABLE a ()'']" and s = fresh and psql = psql_f
        and date = clock and k = 0
        and c = 0 and connects = True and query = query_ok
        and cwd = "''/app''" and t = app_session and sql = ?sql] h4
    by blast
  have "status fresh = None" by (simp add: fresh_def)
  moreover have "sent app_session = []" by (simp add: app_session_def)
  ultimately show ?thesis
    using h1 h2 h3
      record_written_only_after_psql_succeeds[OF p1 p2, where dir = half_applied
        and body = ?body and s = fresh and psql = psql_f and date = clock and k = 0
        and c = 0 and connects = True and query = "query_rejecting ?sql"
        and cwd = "''/app''" and t = app_session and sql = ?sql]
      record_written_only_after_psql_succeeds[OF p1 p2, where dir = one_file
        and body = "[Good ''CREATE TABLE a ()'']" and s = fresh and psql = psql_f
        and date = clock and k = 0
        and c = 0 and connects = True and query = "query_rejecting ?sql"
        and cwd = "''/app''" and t = app_session and sql = ?sql]
      last committed
    by simp
qed

theorem failed_migration_is_not_rolled_back:
  "run_migrations psql_f clock (Some half_applied) fresh =
     (Some 1,
      \<lparr>status = None,
       database = [''CREATE TABLE a ()''],
       printed = [Applying ''001-init.sql'', Migration_failed ''001-init.sql'']\<rparr>)
   \<and> database fresh = []"
  by code_simp

section \<open>The order of the migrations\<close>



section \<open>The lines of the status file\<close>

text \<open>
  C6. A record, once written, is to stay as it is. Marking a migration applied is
  "update or add": when a line matches \<^verbatim>\<open>^name:\<close>, \<^verbatim>\<open>sed\<close> rewrites that line, and the
  file name is pasted into the pattern as it is. With a file named \<^verbatim>\<open>1-0.sql:fix.sql\<close>
  and a file named \<^verbatim>\<open>1.0.sql\<close>, the first iteration of a first run writes the record of
  \<^verbatim>\<open>1-0.sql:fix.sql\<close>. The second iteration finds no record of \<^verbatim>\<open>1.0.sql\<close>, applies it,
  and then, since \<^verbatim>\<open>^1.0.sql:\<close> matches the line of the first file, rewrites that line
  in place of adding one: at the end of the run the record of \<^verbatim>\<open>1-0.sql:fix.sql\<close> is
  gone, and the status file tells that it is not applied. (With file names that hold no
  colon a run only adds lines: \<open>loop_only_appends\<close>.)
\<close>

theorem record_is_overwritten_by_a_later_migration:
  "list_all bre_plain (discovered colon_files)
   \<and> status (snd (migration_loop psql_f clock colon_files 0 [''1-0.sql:fix.sql''] fresh))
       = Some [status_header, ''1-0.sql:fix.sql:applied:2024-01-01 10:00:00'']
   \<and> is_migration_applied ''1-0.sql:fix.sql''
        (Some [status_header, ''1-0.sql:fix.sql:applied:2024-01-01 10:00:00''])
   \<and> \<not> is_migration_applied ''1.0.sql''
        (Some [status_header, ''1-0.sql:fix.sql:applied:2024-01-01 10:00:00''])
   \<and> mark_migration_applied ''1.0.sql'' (clock 1)
        (Some [status_header, ''1-0.sql:fix.sql:applied:2024-01-01 10:00:00''])
       = Some [status_header, ''1.0.sql:applied:2024-01-01 10:00:01'']
   \<and> fst (run_migrations psql_f clock (Some colon_files) fresh) = None
   \<and> status (snd (run_migrations psql_f clock (Some colon_files) fresh))
       = Some [status_header, ''1.0.sql:applied:2024-01-01 10:00:01'']
   \<and> \<not> is_migration_applied ''1-0.sql:fix.sql''
        (status (snd (run_migrations psql_f clock (Some colon_files) fresh)))"
  by code_simp

section \<open>The first run\<close>

text \<open>
  C7. Without a status file no migration is reported as applied, and a first run is to
  apply every migration file and to write one record for each. With \<^verbatim>\<open>seed-data.sql\<close>
  and \<^verbatim>\<open>seed.data.sql\<close> and no status file, the run applies the first and skips the
  second, whose pattern matches the record of the first: one file has been run and one
  record is written.
\<close>

theorem bootstrap_applies_one_of_two:
  "is_migration_applied ''seed-data.sql'' None = False
   \<and> is_migration_applied ''seed.data.sql'' None = False
   \<and> discovered seed_files = [''seed-data.sql'', ''seed.data.sql'']
   \<and> list_all bre_plain (discovered seed_files)
   \<and> run_migrations psql_f clock (Some seed_files) fresh =
     (None,
      \<lparr>status = Some [status_header, ''seed-data.sql:applied:2024-01-01 10:00:00''],
       database = [''INSERT INTO a VALUES (1)''],
       printed = [Applying ''seed-data.sql'', Marked_applied ''seed-data.sql'',
         Applied_successfully ''seed-data.sql'', Already_applied ''seed.data.sql'',
         All_processed]\<rparr>)"
  by code_simp

section \<open>Exit codes\<close>

text \<open>
  C8. The standalone runner exits with 0 exactly when the connection is made, the
  migration file is a regular file and each of the seven queries resolves, and with 1
  otherwise. The entrypoint never exits with 0 itself. It exits with 1 when \<^verbatim>\<open>psql\<close>
  fails on a migration: the line that a migration failed is printed only on the way to
  \<^verbatim>\<open>exit 1\<close>, and when every run of \<^verbatim>\<open>psql\<close> fails and a migration is pending, the script
  exits with 1 and leaves the status file as it was. On every other path (every run of
  \<^verbatim>\<open>psql\<close> succeeds, nothing is pending, or there is no migrations directory, which is
  skipped and is no error) it announces the application and replaces itself by the
  container's command, so the process ends when and as that command ends: with the
  command's status, whatever it is (and with 0 when no command was given). While the
  database cannot be reached, neither happens and the process does not end. The writes
  of the status file are taken to succeed, and the statement is for the file names that
  \<open>bre_plain\<close> accepts.
\<close>

theorem exit_statuses:
  assumes "list_all bre_plain (discovered dir)"
  shows "(runner_exit_code connects query cwd t = 0 \<longleftrightarrow>
      connects \<and> (\<exists>sql. files t (migrationPath cwd) = Some (File sql)
        \<and> (\<forall>i<length (try_block sql).
              snd (query (try_block sql ! i) (db_after query (db t) (take i (try_block sql)))))))
   \<and> (runner_exit_code connects query cwd t = 0 \<or> runner_exit_code connects query cwd t = 1)
   \<and> (docker_entrypoint pg_isready psql date (Some dir) s = Some (e, slept, s') \<longrightarrow>
        e \<noteq> Exit 0)
   \<and> (docker_entrypoint pg_isready psql date (Some dir) (s\<lparr>printed := []\<rparr>) = Some (e, slept, s')
        \<and> Migration_failed n \<in> set (printed s') \<longrightarrow>
        e = Exit 1
        \<and> process_status command args
             (docker_entrypoint pg_isready psql date (Some dir) (s\<lparr>printed := []\<rparr>)) = Some 1)
   \<and> (wait_for_postgres pg_isready 0 0 = Some (polls, slept)
        \<and> (\<forall>body d. \<not> snd (psql body d))
        \<and> n \<in> set (discovered dir) \<and> \<not> is_migration_applied n (status s) \<longrightarrow>
        (\<exists>s'. docker_entrypoint pg_isready psql date (Some dir) s = Some (Exit 1, slept, s')
           \<and> status s' = status s)
        \<and> process_status command args (docker_entrypoint pg_isready psql date (Some dir) s)
            = Some 1)
   \<and> (wait_for_postgres pg_isready 0 0 = Some (polls, slept)
        \<and> (\<forall>body d. snd (psql body d)) \<longrightarrow>
        (\<exists>s'. docker_entrypoint pg_isready psql date (Some dir) s
                = Some (Exec_command, slept, s'))
        \<and> process_status command args (docker_entrypoint pg_isready psql date (Some dir) s)
            = (if args = [] then Some 0 else command args))
   \<and> (wait_for_postgres pg_isready 0 0 = Some (polls, slept)
        \<and> (\<forall>n \<in> set (discovered dir). is_migration_applied n (status s)) \<longrightarrow>
        docker_entrypoint pg_isready psql date (Some dir) s =
          Some (Exec_command, slept,
            s\<lparr>printed := printed s @ map Already_applied (discovered dir)
                 @ [All_processed, Starting_application]\<rparr>)
        \<and> process_status command args (docker_entrypoint pg_isready psql date (Some dir) s)
            = (if args = [] then Some 0 else command args))
   \<and> (wait_for_postgres pg_isready 0 0 = Some (polls, slept) \<longrightarrow>
        docker_entrypoint pg_isready psql date None s =
          Some (Exec_command, slept,
            s\<lparr>printed := printed s @ [No_migrations_directory, Starting_application]\<rparr>)
        \<and> process_status command args (docker_entrypoint pg_isready psql date None s)
            = (if args = [] then Some 0 else command args))
   \<and> ((\<forall>j. \<not> pg_isready j) \<longrightarrow>
        docker_entrypoint pg_isready psql date (Some dir) s = None
        \<and> process_status command args (docker_entrypoint pg_isready psql date (Some dir) s)
            = None)"
proof (intro conjI)
  show "runner_exit_code connects query cwd t = 0 \<longleftrightarrow>
      connects \<and> (\<exists>sql. files t (migrationPath cwd) = Some (File sql)
        \<and> (\<forall>i<length (try_block sql).
              snd (query (try_block sql ! i) (db_after query (db t) (take i (try_block sql))))))"
    by (rule runner_exit_zero_iff_queries)
next
  show "runner_exit_code connects query cwd t = 0 \<or> runner_exit_code connects query cwd t = 1"
    by (rule runner_exit_code_cases)
next
  show "docker_entrypoint pg_isready psql date (Some dir) s = Some (e, slept, s') \<longrightarrow>
        e \<noteq> Exit 0"
    using entrypoint_ending[of pg_isready psql date "Some dir" s e slept s'] by auto
next
  show "docker_entrypoint pg_isready psql date (Some dir) (s\<lparr>printed := []\<rparr>) = Some (e, slept, s')
        \<and> Migration_failed n \<in> set (printed s') \<longrightarrow>
        e = Exit 1
        \<and> process_status command args
             (docker_entrypoint pg_isready psql date (Some dir) (s\<lparr>printed := []\<rparr>)) = Some 1"
  proof (intro impI, elim conjE)
    assume r: "docker_entrypoint pg_isready psql date (Some dir) (s\<lparr>printed := []\<rparr>)
        = Some (e, slept, s')"
      and m: "Migration_failed n \<in> set (printed s')"
    from entrypoint_failed_message[OF r m] have "e = Exit 1" .
    with r show "e = Exit 1
        \<and> process_status command args
             (docker_entrypoint pg_isready psql date (Some dir) (s\<lparr>printed := []\<rparr>)) = Some 1"
      by (simp add: process_status_Exit)
  qed
next
  show "wait_for_postgres pg_isready 0 0 = Some (polls, slept)
        \<and> (\<forall>body d. \<not> snd (psql body d))
        \<and> n \<in> set (discovered dir) \<and> \<not> is_migration_applied n (status s) \<longrightarrow>
        (\<exists>s'. docker_entrypoint pg_isready psql date (Some dir) s = Some (Exit 1, slept, s')
           \<and> status s' = status s)
        \<and> process_status command args (docker_entrypoint pg_isready psql date (Some dir) s)
            = Some 1"
  proof (intro impI, elim conjE)
    assume w: "wait_for_postgres pg_isready 0 0 = Some (polls, slept)"
      and "\<forall>body d. \<not> snd (psql body d)"
      and n: "n \<in> set (discovered dir)" "\<not> is_migration_applied n (status s)"
    then have bad: "\<And>body d. \<not> snd (psql body d)" by simp
    have "\<exists>s'. docker_entrypoint pg_isready psql date (Some dir) s = Some (Exit 1, slept, s')
        \<and> status s' = status s"
      using w bad n by (rule entrypoint_psql_fails)
    then obtain s1 where
      s1: "docker_entrypoint pg_isready psql date (Some dir) s = Some (Exit 1, slept, s1)"
        "status s1 = status s" by blast
    then show "(\<exists>s'. docker_entrypoint pg_isready psql date (Some dir) s = Some (Exit 1, slept, s')
           \<and> status s' = status s)
        \<and> process_status command args (docker_entrypoint pg_isready psql date (Some dir) s)
            = Some 1"
      by (simp add: process_status_Exit)
  qed
next
  show "wait_for_postgres pg_isready 0 0 = Some (polls, slept)
        \<and> (\<forall>body d. snd (psql body d)) \<longrightarrow>
        (\<exists>s'. docker_entrypoint pg_isready psql date (Some dir) s
                = Some (Exec_command, slept, s'))
        \<and> process_status command args (docker_entrypoint pg_isready psql date (Some dir) s)
            = (if args = [] then Some 0 else command args)"
  proof (intro impI, elim conjE)
    assume w: "wait_for_postgres pg_isready 0 0 = Some (polls, slept)"
      and "\<forall>body d. snd (psql body d)"
    then have ok: "\<And>body d. snd (psql body d)" by simp
    have "\<exists>s'. docker_entrypoint pg_isready psql date (Some dir) s
        = Some (Exec_command, slept, s')"
      using w ok by (rule entrypoint_psql_succeeds)
    then obtain s1 where
      s1: "docker_entrypoint pg_isready psql date (Some dir) s = Some (Exec_command, slept, s1)"
      by blast
    then show "(\<exists>s'. docker_entrypoint pg_isready psql date (Some dir) s
                = Some (Exec_command, slept, s'))
        \<and> process_status command args (docker_entrypoint pg_isready psql date (Some dir) s)
            = (if args = [] then Some 0 else command args)"
      by (simp add: process_status_Exec)
  qed
next
  show "wait_for_postgres pg_isready 0 0 = Some (polls, slept)
        \<and> (\<forall>n \<in> set (discovered dir). is_migration_applied n (status s)) \<longrightarrow>
        docker_entrypoint pg_isready psql date (Some dir) s =
          Some (Exec_command, slept,
            s\<lparr>printed := printed s @ map Already_applied (discovered dir)
                 @ [All_processed, Starting_application]\<rparr>)
        \<and> process_status command args (docker_entrypoint pg_isready psql date (Some dir) s)
            = (if args = [] then Some 0 else command args)"
  proof (intro impI, elim conjE)
    assume w: "wait_for_postgres pg_isready 0 0 = Some (polls, slept)"
      and "\<forall>n \<in> set (discovered dir). is_migration_applied n (status s)"
    then have all: "\<And>n. n \<in> set (discovered dir) \<Longrightarrow> is_migration_applied n (status s)"
      by simp
    have "docker_entrypoint pg_isready psql date (Some dir) s =
          Some (Exec_command, slept,
            s\<lparr>printed := printed s @ map Already_applied (discovered dir)
                 @ [All_processed, Starting_application]\<rparr>)"
      using w all by (rule entrypoint_nothing_pending)
    then show "docker_entrypoint pg_isready psql date (Some dir) s =
          Some (Exec_command, slept,
            s\<lparr>printed := printed s @ map Already_applied (discovered dir)
                 @ [All_processed, Starting_application]\<rparr>)
        \<and> process_status command args (docker_entrypoint pg_isready psql date (Some dir) s)
            = (if args = [] then Some 0 else command args)"
      by (simp add: process_status_Exec)
  qed
next
  show "wait_for_postgres pg_isready 0 0 = Some (polls, slept) \<longrightarrow>
        docker_entrypoint pg_isready psql date None s =
          Some (Exec_command, slept,
            s\<lparr>printed := printed s @ [No_migrations_directory, Starting_application]\<rparr>)
        \<and> process_status command args (docker_entrypoint pg_isready psql date None s)
            = (if args = [] then Some 0 else command args)"
    using entrypoint_no_directory[of pg_isready polls slept psql date s]
    by (simp add: process_status_Exec)
next
  show "(\<forall>j. \<not> pg_isready j) \<longrightarrow>
        docker_entrypoint pg_isready psql date (Some dir) s = None
        \<and> process_status command args (docker_entrypoint pg_isready psql date (Some dir) s)
            = None"
    by (simp add: docker_entrypoint_def wait_forever process_status_None)
qed

theorem exit_statuses_witness:
  "runner_exit_code True query_ok ''/app'' app_session = 0
   \<and> runner_exit_code True (query_rejecting ''COMMIT'') ''/app'' app_session = 1
   \<and> docker_entrypoint (\<lambda>k. True) psql_f clock (Some half_applied) fresh
       = Some (Exit 1, 0,
           \<lparr>status = None, database = [''CREATE TABLE a ()''],
            printed = [Applying ''001-init.sql'', Migration_failed ''001-init.sql'']\<rparr>)
   \<and> process_status (\<lambda>args. Some 7) [''node'', ''dist/index.js'']
        (docker_entrypoint (\<lambda>k. True) psql_f clock (Some half_applied) fresh) = Some 1
   \<and> (\<exists>s'. docker_entrypoint (\<lambda>k. True) psql_down clock (Some one_file) fresh
              = Some (Exit 1, 0, s') \<and> status s' = None)
   \<and> process_status (\<lambda>args. Some 7) [''node'', ''dist/index.js'']
        (docker_entrypoint (\<lambda>k. True) psql_down clock (Some one_file) fresh) = Some 1
   \<and> (\<exists>s'. docker_entrypoint (\<lambda>k. True) psql_up clock (Some three_files) fresh
              = Some (Exec_command, 0, s'))
   \<and> process_status (\<lambda>args. Some 7) [''node'', ''dist/index.js'']
        (docker_entrypoint (\<lambda>k. True) psql_up clock (Some three_files) fresh) = Some 7
   \<and> docker_entrypoint (\<lambda>k. True) psql_f clock (Some one_file) init_recorded
       = Some (Exec_command, 0,
           init_recorded\<lparr>printed := [Already_applied ''001-init.sql'', All_processed,
             Starting_application]\<rparr>)
   \<and> process_status (\<lambda>args. Some 7) []
        (docker_entrypoint (\<lambda>k. True) psql_f clock (Some one_file) init_recorded) = Some 0
   \<and> docker_entrypoint (\<lambda>k. True) psql_f clock None fresh
       = Some (Exec_command, 0,
           fresh\<lparr>printed := [No_migrations_directory, Starting_application]\<rparr>)
   \<and> process_status (\<lambda>args. Some 7) [''node'', ''dist/index.js'']
        (docker_entrypoint (\<lambda>k. True) psql_f clock None fresh) = Some 7
   \<and> docker_entrypoint (\<lambda>k. False) psql_f clock (Some one_file) fresh = None
   \<and> process_status (\<lambda>args. Some 7) [''node'', ''dist/index.js'']
        (docker_entrypoint (\<lambda>k. False) psql_f clock (Some one_file) fresh) = None"
proof -
  let ?sql = "''ALTER TABLE messages ADD COLUMN read_at timestamp''"
  let ?node = "[''node'', ''dist/index.js'']"
  let ?failed = "\<lparr>status = None, database = [''CREATE TABLE a ()''],
      printed = [Applying ''001-init.sql'', Migration_failed ''001-init.sql'']\<rparr>"
  have p_one: "list_all bre_plain (discovered one_file)" by code_simp
  have p_half: "list_all bre_plain (discovered half_applied)" by code_simp
  have p_three: "list_all bre_plain (discovered three_files)" by code_simp
  have there: "files app_session (migrationPath ''/app'') = Some (File ?sql)"
    by (simp add: app_session_def app_files_def migrationPath_def)
  have printed_fresh: "fresh\<lparr>printed := []\<rparr> = fresh" "printed fresh = []" "status fresh = None"
    by (simp_all add: fresh_def)

  note runner = exit_statuses[OF p_one, where connects = True and query = query_ok
      and cwd = "''/app''" and t = app_session and pg_isready = "\<lambda>k. True" and psql = psql_f
      and date = clock and s = init_recorded and e = Exec_command and slept = 0
      and s' = init_recorded and n = "''001-init.sql''" and command = "\<lambda>args. Some 7"
      and args = "[]" and polls = 0]
  have "\<forall>i<length (try_block ?sql).
      snd (query_ok (try_block ?sql ! i) (db_after query_ok (db app_session)
        (take i (try_block ?sql))))"
    by (simp add: query_ok_def)
  with there have w1: "runner_exit_code True query_ok ''/app'' app_session = 0"
    using runner[THEN conjunct1] by blast

  note rejecting = exit_statuses[OF p_one, where connects = True
      and query = "query_rejecting ''COMMIT''"
      and cwd = "''/app''" and t = app_session and pg_isready = "\<lambda>k. True" and psql = psql_f
      and date = clock and s = fresh and e = Exec_command and slept = 0
      and s' = fresh and n = "''001-init.sql''" and command = "\<lambda>args. Some 7"
      and args = ?node and polls = 0]
  have "\<not> (\<forall>i<length (try_block sql).
      snd (query_rejecting ''COMMIT'' (try_block sql ! i)
        (db_after (query_rejecting ''COMMIT'') (db app_session) (take i (try_block sql)))))" for sql
  proof
    assume "\<forall>i<length (try_block sql).
      snd (query_rejecting ''COMMIT'' (try_block sql ! i)
        (db_after (query_rejecting ''COMMIT'') (db app_session) (take i (try_block sql))))"
    then have "2 < length (try_block sql) \<longrightarrow> snd (query_rejecting ''COMMIT'' (try_block sql ! 2)
        (db_after (query_rejecting ''COMMIT'') (db app_session) (take 2 (try_block sql))))"
      by blast
    then show False by (simp add: try_block_def query_rejecting_def)
  qed
  then have "runner_exit_code True (query_rejecting ''COMMIT'') ''/app'' app_session \<noteq> 0"
    using rejecting[THEN conjunct1] by blast
  then have w2: "runner_exit_code True (query_rejecting ''COMMIT'') ''/app'' app_session = 1"
    using rejecting[THEN conjunct2, THEN conjunct1] by simp

  note failing = exit_statuses[OF p_half, where connects = True and query = query_ok
      and cwd = "''/app''" and t = app_session and pg_isready = "\<lambda>k. True" and psql = psql_f
      and date = clock and s = fresh and e = "Exit 1" and slept = 0
      and s' = ?failed and n = "''001-init.sql''" and command = "\<lambda>args. Some 7"
      and args = ?node and polls = 0]
  have "run_migrations psql_f clock (Some half_applied) fresh = (Some 1, ?failed)"
    by code_simp
  then have w3: "docker_entrypoint (\<lambda>k. True) psql_f clock (Some half_applied) fresh
      = Some (Exit 1, 0, ?failed)"
    by (simp add: docker_entrypoint_def wait_ready_at_once)
  then have w4: "process_status (\<lambda>args. Some 7) ?node
      (docker_entrypoint (\<lambda>k. True) psql_f clock (Some half_applied) fresh) = Some 1"
    using failing[THEN conjunct2, THEN conjunct2, THEN conjunct2, THEN conjunct1]
    by (simp add: printed_fresh)

  note down = exit_statuses[OF p_one, where connects = True and query = query_ok
      and cwd = "''/app''" and t = app_session and pg_isready = "\<lambda>k. True" and psql = psql_down
      and date = clock and s = fresh and e = "Exit 1" and slept = 0
      and s' = fresh and n = "''001-init.sql''" and command = "\<lambda>args. Some 7"
      and args = ?node and polls = 0]
  have pending: "''001-init.sql'' \<in> set (discovered one_file)"
    "\<not> is_migration_applied ''001-init.sql'' (status fresh)"
    by code_simp+
  have never: "\<forall>body d. \<not> snd (psql_down body d)" by (simp add: psql_down_def)
  have w5: "(\<exists>s'. docker_entrypoint (\<lambda>k. True) psql_down clock (Some one_file) fresh
              = Some (Exit 1, 0, s') \<and> status s' = None)
      \<and> process_status (\<lambda>args. Some 7) ?node
        (docker_entrypoint (\<lambda>k. True) psql_down clock (Some one_file) fresh) = Some 1"
    using down[THEN conjunct2, THEN conjunct2, THEN conjunct2, THEN conjunct2, THEN conjunct1]
      wait_ready_at_once never pending
    by (simp add: printed_fresh)

  note up = exit_statuses[OF p_three, where connects = True and query = query_ok
      and cwd = "''/app''" and t = app_session and pg_isready = "\<lambda>k. True" and psql = psql_up
      and date = clock and s = fresh and e = Exec_command and slept = 0
      and s' = fresh and n = "''001-init.sql''" and command = "\<lambda>args. Some 7"
      and args = ?node and polls = 0]
  have always: "\<forall>body d. snd (psql_up body d)" by (simp add: psql_up_def)
  have w6: "(\<exists>s'. docker_entrypoint (\<lambda>k. True) psql_up clock (Some three_files) fresh
              = Some (Exec_command, 0, s'))
      \<and> process_status (\<lambda>args. Some 7) ?node
        (docker_entrypoint (\<lambda>k. True) psql_up clock (Some three_files) fresh) = Some 7"
    using up[THEN conjunct2, THEN conjunct2, THEN conjunct2, THEN conjunct2, THEN conjunct2,
        THEN conjunct1] wait_ready_at_once always
    by simp

  have disc: "discovered one_file = [''001-init.sql'']" by code_simp
  have all: "\<forall>n \<in> set (discovered one_file). is_migration_applied n (status init_recorded)"
    unfolding disc by code_simp
  have "printed init_recorded = []" by (simp add: init_recorded_def)
  then have w7: "docker_entrypoint (\<lambda>k. True) psql_f clock (Some one_file) init_recorded
       = Some (Exec_command, 0,
           init_recorded\<lparr>printed := [Already_applied ''001-init.sql'', All_processed,
             Starting_application]\<rparr>)
      \<and> process_status (\<lambda>args. Some 7) []
        (docker_entrypoint (\<lambda>k. True) psql_f clock (Some one_file) init_recorded) = Some 0"
    using runner[THEN conjunct2, THEN conjunct2, THEN conjunct2, THEN conjunct2, THEN conjunct2,
        THEN conjunct2, THEN conjunct1] wait_ready_at_once all
    by (auto simp: disc)

  have w8: "docker_entrypoint (\<lambda>k. True) psql_f clock None fresh
       = Some (Exec_command, 0,
           fresh\<lparr>printed := [No_migrations_directory, Starting_application]\<rparr>)
      \<and> process_status (\<lambda>args. Some 7) ?node
        (docker_entrypoint (\<lambda>k. True) psql_f clock None fresh) = Some 7"
    using rejecting[THEN conjunct2, THEN conjunct2, THEN conjunct2, THEN conjunct2,
        THEN conjunct2, THEN conjunct2, THEN conjunct2, THEN conjunct1] wait_ready_at_once
    by (auto simp: printed_fresh)

  have w9: "docker_entrypoint (\<lambda>k. False) psql_f clock (Some one_file) fresh = None
      \<and> process_status (\<lambda>args. Some 7) ?node
        (docker_entrypoint (\<lambda>k. False) psql_f clock (Some one_file) fresh) = None"
    using exit_statuses[OF p_one, where connects = True and query = query_ok
      and cwd = "''/app''" and t = app_session and pg_isready = "\<lambda>k. False" and psql = psql_f
      and date = clock and s = fresh and e = Exec_command and slept = 0
      and s' = fresh and n = "''001-init.sql''" and command = "\<lambda>args. Some 7"
      and args = ?node and polls = 0,
      THEN conjunct2, THEN conjunct2, THEN conjunct2, THEN conjunct2,
      THEN conjunct2, THEN conjunct2, THEN conjunct2, THEN conjunct2]
    by auto
  from w1 w2 w3 w4 w5 w6 w7 w8 w9 show ?thesis by blast
qed

theorem successful_run_ends_as_the_command_does:
  "fst (run_migrations psql_f clock (Some three_files) fresh) = None
   \<and> process_status (\<lambda>args. Some 7) [''node'', ''dist/index.js'']
        (docker_entrypoint (\<lambda>k. True) psql_f clock (Some three_files) fresh) = Some 7
   \<and> process_status (\<lambda>args. Some 0) [''node'', ''dist/index.js'']
        (docker_entrypoint (\<lambda>k. True) psql_f clock None fresh) = Some 0
   \<and> process_status (\<lambda>args. Some 0) [''node'', ''dist/index.js'']
        (docker_entrypoint (\<lambda>k. False) psql_f clock (Some three_files) fresh) = None"
proof -
  have a: "fst (run_migrations psql_f clock (Some three_files) fresh) = None"
    by code_simp
  have b: "process_status (\<lambda>args. Some 7) [''node'', ''dist/index.js'']
        (docker_entrypoint (\<lambda>k. True) psql_f clock (Some three_files) fresh) = Some 7"
    using a entrypoint_result[OF wait_ready_at_once, of psql_f clock "Some three_files" fresh]
    by (simp add: process_status_def)
  have c: "process_status (\<lambda>args. Some 0) [''node'', ''dist/index.js'']
        (docker_entrypoint (\<lambda>k. True) psql_f clock None fresh) = Some 0"
    by (simp add: entrypoint_no_directory[OF wait_ready_at_once] process_status_def)
  have d: "process_status (\<lambda>args. Some 0) [''node'', ''dist/index.js'']
        (docker_entrypoint (\<lambda>k. False) psql_f clock (Some three_files) fresh) = None"
    by (simp add: docker_entrypoint_def wait_forever process_status_def)
  from a b c d show ?thesis by blast
qed

section \<open>Waiting without a bound\<close>

text \<open>
  C9. While the database is unreachable the entrypoint polls it every \<open>retry_interval\<close>
  seconds, with no bound on the number of polls: whatever the number \<open>n\<close> of polls that
  fail before the first that succeeds, the loop ends after exactly \<open>n\<close> sleeps; if no poll
  ever succeeds, the loop and with it the script never end, so no migration is applied
  and nothing times out; and whenever the script gets as far as exiting or starting the
  container's command, a poll has found the database first, after as many sleeps as
  polls failed.
\<close>

theorem wait_for_postgres_retries_until_reachable:
  "((\<forall>j<n. \<not> pg_isready j) \<and> pg_isready n \<longrightarrow>
      wait_for_postgres pg_isready 0 0 = Some (n, retry_interval * n))
   \<and> ((\<forall>j. \<not> pg_isready j) \<longrightarrow>
      wait_for_postgres pg_isready 0 0 = None
      \<and> docker_entrypoint pg_isready psql date dir s = None)
   \<and> (docker_entrypoint pg_isready psql date dir s = Some (code, slept, s') \<longrightarrow>
      (\<exists>m. pg_isready m \<and> (\<forall>j<m. \<not> pg_isready j) \<and> slept = retry_interval * m))"
proof (intro conjI impI)
  assume "(\<forall>j<n. \<not> pg_isready j) \<and> pg_isready n"
  then show "wait_for_postgres pg_isready 0 0 = Some (n, retry_interval * n)"
    using wait_returns[of pg_isready 0 n 0] by simp
next
  assume never: "\<forall>j. \<not> pg_isready j"
  then show "wait_for_postgres pg_isready 0 0 = None"
    by (simp add: wait_forever)
  from never show "docker_entrypoint pg_isready psql date dir s = None"
    by (simp add: docker_entrypoint_def wait_forever)
next
  assume "docker_entrypoint pg_isready psql date dir s = Some (code, slept, s')"
  then show "\<exists>m. pg_isready m \<and> (\<forall>j<m. \<not> pg_isready j) \<and> slept = retry_interval * m"
    by (rule entrypoint_waits_first)
qed

theorem wait_for_postgres_retries_until_reachable_witness:
  "wait_for_postgres (\<lambda>k. 3 \<le> k) 0 0 = Some (3, 6)
   \<and> docker_entrypoint (\<lambda>k. False) psql_f clock None fresh = None
   \<and> docker_entrypoint (\<lambda>k. 3 \<le> k) psql_f clock None fresh
       = Some (Exec_command, 6,
           fresh\<lparr>printed := [No_migrations_directory, Starting_application]\<rparr>)
   \<and> (\<exists>m. 3 \<le> m \<and> (\<forall>j<m. \<not> 3 \<le> j) \<and> (6::nat) = retry_interval * m)"
proof -
  let ?s' = "fresh\<lparr>printed := [No_migrations_directory, Starting_application]\<rparr>"
  note late = wait_for_postgres_retries_until_reachable[where n = 3
      and pg_isready = "\<lambda>k. 3 \<le> k" and psql = psql_f and date = clock and dir = None
      and s = fresh and code = Exec_command and slept = 6 and s' = ?s']
  note never = wait_for_postgres_retries_until_reachable[where n = 0
      and pg_isready = "\<lambda>k. False" and psql = psql_f and date = clock and dir = None
      and s = fresh and code = Exec_command and slept = 0 and s' = fresh]
  have a: "wait_for_postgres (\<lambda>k. 3 \<le> k) 0 0 = Some (3, retry_interval * 3)"
    using late by simp
  have b: "docker_entrypoint (\<lambda>k. False) psql_f clock None fresh = None"
    using never by simp
  have c: "docker_entrypoint (\<lambda>k. 3 \<le> k) psql_f clock None fresh
      = Some (Exec_command, 6, ?s')"
    using a by (simp add: docker_entrypoint_def run_migrations_def retry_interval_def fresh_def)
  have d: "\<exists>m. 3 \<le> m \<and> (\<forall>j<m. \<not> 3 \<le> j) \<and> (6::nat) = retry_interval * m"
    using late c by blast
  from a b c d show ?thesis by (simp add: retry_interval_def)
qed

section \<open>The standalone runner applies its file every time\<close>

text \<open>
  C10. The standalone runner reads one file,
  \<^verbatim>\<open>migrations/003-add-unread-message-tracking.sql\<close> under the working directory, and no
  other: its outcome does not depend on any other path, and it changes no file, so it
  keeps no record of what it has applied. When that file is missing it exits with 1 and
  sends nothing to the database; so it does when the connection is not made. Otherwise
  it sends \<^verbatim>\<open>BEGIN\<close>, the file's text and \<^verbatim>\<open>COMMIT\<close>, and then the four checks, in this
  order and whatever was sent before: every run executes the migration again. The
  database session is exactly what the queries sent have made of it. When all seven
  queries resolve, the promise resolves and the exit code is 0. When one of them
  rejects, nothing is sent after it but \<^verbatim>\<open>ROLLBACK\<close>, and the exit code is 1. When the
  path is a directory, reading it fails: only \<^verbatim>\<open>ROLLBACK\<close> is sent, and the exit code
  is 1.
\<close>

theorem runner_applies_unconditionally:
  "(\<exists>d. migrationPath cwd = d @ ''/migrations/003-add-unread-message-tracking.sql'')
   \<and> (files t (migrationPath cwd) = None \<longrightarrow>
        runner_exit_code connects query cwd t = 1
        \<and> snd (runUnreadMessageMigration connects query cwd t) = t)
   \<and> files (snd (runUnreadMessageMigration connects query cwd t)) = files t
   \<and> (files t (migrationPath cwd) = files u (migrationPath cwd) \<and> db t = db u \<and> sent t = sent u \<longrightarrow>
        fst (runUnreadMessageMigration connects query cwd t)
          = fst (runUnreadMessageMigration connects query cwd u)
        \<and> db (snd (runUnreadMessageMigration connects query cwd t))
          = db (snd (runUnreadMessageMigration connects query cwd u))
        \<and> sent (snd (runUnreadMessageMigration connects query cwd t))
          = sent (snd (runUnreadMessageMigration connects query cwd u)))
   \<and> (connects \<and> files t (migrationPath cwd) = Some (File sql)
        \<and> snd (query ''BEGIN'' (db t)) \<longrightarrow>
        (\<exists>rest. sent (snd (runUnreadMessageMigration connects query cwd t))
                  = sent t @ ''BEGIN'' # sql # rest
           \<and> db (snd (runUnreadMessageMigration connects query cwd t))
                  = db_after query (db t) (''BEGIN'' # sql # rest)))
   \<and> (\<exists>new. sent (snd (runUnreadMessageMigration connects query cwd t)) = sent t @ new
        \<and> db (snd (runUnreadMessageMigration connects query cwd t))
            = db_after query (db t) new)
   \<and> take 3 (try_block sql) = [''BEGIN'', sql, ''COMMIT'']
   \<and> length (try_block sql) = 7
   \<and> (connects \<and> files t (migrationPath cwd) = Some (File sql)
        \<and> (\<forall>i<length (try_block sql).
              snd (query (try_block sql ! i) (db_after query (db t) (take i (try_block sql))))) \<longrightarrow>
        runUnreadMessageMigration connects query cwd t
          = (Resolved, t\<lparr>db := db_after query (db t) (try_block sql),
                         sent := sent t @ try_block sql\<rparr>)
        \<and> runner_exit_code connects query cwd t = 0)
   \<and> (connects \<and> files t (migrationPath cwd) = Some (File sql)
        \<and> i < length (try_block sql)
        \<and> (\<forall>j<i. snd (query (try_block sql ! j) (db_after query (db t) (take j (try_block sql)))))
        \<and> \<not> snd (query (try_block sql ! i) (db_after query (db t) (take i (try_block sql)))) \<longrightarrow>
        sent (snd (runUnreadMessageMigration connects query cwd t))
          = sent t @ take (Suc i) (try_block sql) @ [''ROLLBACK'']
        \<and> db (snd (runUnreadMessageMigration connects query cwd t))
          = db_after query (db t) (take (Suc i) (try_block sql) @ [''ROLLBACK''])
        \<and> runner_exit_code connects query cwd t = 1)
   \<and> (connects \<and> files t (migrationPath cwd) = Some Directory \<longrightarrow>
        sent (snd (runUnreadMessageMigration connects query cwd t)) = sent t @ [''ROLLBACK'']
        \<and> db (snd (runUnreadMessageMigration connects query cwd t))
          = db_after query (db t) [''ROLLBACK'']
        \<and> runner_exit_code connects query cwd t = 1)
   \<and> (\<not> connects \<longrightarrow>
        snd (runUnreadMessageMigration connects query cwd t) = t
        \<and> runner_exit_code connects query cwd t = 1)"
proof (intro conjI)
  show "\<exists>d. migrationPath cwd = d @ ''/migrations/003-add-unread-message-tracking.sql''"
    unfolding migrationPath_def by blast
next
  show "files t (migrationPath cwd) = None \<longrightarrow>
        runner_exit_code connects query cwd t = 1
        \<and> snd (runUnreadMessageMigration connects query cwd t) = t"
    using runner_missing_file[of t cwd connects query] by blast
next
  show "files (snd (runUnreadMessageMigration connects query cwd t)) = files t"
    by (rule runner_files)
next
  show "files t (migrationPath cwd) = files u (migrationPath cwd) \<and> db t = db u \<and> sent t = sent u \<longrightarrow>
        fst (runUnreadMessageMigration connects query cwd t)
          = fst (runUnreadMessageMigration connects query cwd u)
        \<and> db (snd (runUnreadMessageMigration connects query cwd t))
          = db (snd (runUnreadMessageMigration connects query cwd u))
        \<and> sent (snd (runUnreadMessageMigration connects query cwd t))
          = sent (snd (runUnreadMessageMigration connects query cwd u))"
    using runner_reads_one_path[of t cwd u connects query] by blast
next
  show "connects \<and> files t (migrationPath cwd) = Some (File sql)
        \<and> snd (query ''BEGIN'' (db t)) \<longrightarrow>
        (\<exists>rest. sent (snd (runUnreadMessageMigration connects query cwd t))
                  = sent t @ ''BEGIN'' # sql # rest
           \<and> db (snd (runUnreadMessageMigration connects query cwd t))
                  = db_after query (db t) (''BEGIN'' # sql # rest))"
    using runner_sends_body[of connects t cwd sql query] by blast
next
  show "\<exists>new. sent (snd (runUnreadMessageMigration connects query cwd t)) = sent t @ new
        \<and> db (snd (runUnreadMessageMigration connects query cwd t))
            = db_after query (db t) new"
    by (rule runner_db_follows_sent)
next
  show "take 3 (try_block sql) = [''BEGIN'', sql, ''COMMIT'']"
    by (rule try_block_begins)
next
  show "length (try_block sql) = 7"
    by (rule try_block_length)
next
  show "connects \<and> files t (migrationPath cwd) = Some (File sql)
        \<and> (\<forall>i<length (try_block sql).
              snd (query (try_block sql ! i) (db_after query (db t) (take i (try_block sql))))) \<longrightarrow>
        runUnreadMessageMigration connects query cwd t
          = (Resolved, t\<lparr>db := db_after query (db t) (try_block sql),
                         sent := sent t @ try_block sql\<rparr>)
        \<and> runner_exit_code connects query cwd t = 0"
  proof (intro impI, elim conjE)
    assume c: "connects" and f: "files t (migrationPath cwd) = Some (File sql)"
      and "\<forall>i<length (try_block sql).
              snd (query (try_block sql ! i) (db_after query (db t) (take i (try_block sql))))"
    then have all: "\<And>i. i < length (try_block sql) \<Longrightarrow>
        snd (query (try_block sql ! i) (db_after query (db t) (take i (try_block sql))))"
      by simp
    have "runUnreadMessageMigration connects query cwd t
          = (Resolved, t\<lparr>db := db_after query (db t) (try_block sql),
                         sent := sent t @ try_block sql\<rparr>)"
      using c f all by (rule runner_resolves)
    then show "runUnreadMessageMigration connects query cwd t
          = (Resolved, t\<lparr>db := db_after query (db t) (try_block sql),
                         sent := sent t @ try_block sql\<rparr>)
        \<and> runner_exit_code connects query cwd t = 0"
      by (simp add: runner_exit_code_def)
  qed
next
  show "connects \<and> files t (migrationPath cwd) = Some (File sql)
        \<and> i < length (try_block sql)
        \<and> (\<forall>j<i. snd (query (try_block sql ! j) (db_after query (db t) (take j (try_block sql)))))
        \<and> \<not> snd (query (try_block sql ! i) (db_after query (db t) (take i (try_block sql)))) \<longrightarrow>
        sent (snd (runUnreadMessageMigration connects query cwd t))
          = sent t @ take (Suc i) (try_block sql) @ [''ROLLBACK'']
        \<and> db (snd (runUnreadMessageMigration connects query cwd t))
          = db_after query (db t) (take (Suc i) (try_block sql) @ [''ROLLBACK''])
        \<and> runner_exit_code connects query cwd t = 1"
  proof (intro impI, elim conjE)
    assume c: "connects" and f: "files t (migrationPath cwd) = Some (File sql)"
      and i: "i < length (try_block sql)"
      and "\<forall>j<i. snd (query (try_block sql ! j) (db_after query (db t) (take j (try_block sql))))"
      and rejects: "\<not> snd (query (try_block sql ! i)
          (db_after query (db t) (take i (try_block sql))))"
    then have before: "\<And>j. j < i \<Longrightarrow>
        snd (query (try_block sql ! j) (db_after query (db t) (take j (try_block sql))))"
      by simp
    have "runUnreadMessageMigration connects query cwd t
     = (if snd (query ''ROLLBACK'' (db_after query (db t) (take (Suc i) (try_block sql))))
        then Process_exit 1 else Rejected_promise,
        t\<lparr>db := db_after query (db t) (take (Suc i) (try_block sql) @ [''ROLLBACK'']),
          sent := sent t @ take (Suc i) (try_block sql) @ [''ROLLBACK'']\<rparr>)"
      using c f i before rejects by (rule runner_rejection)
    then show "sent (snd (runUnreadMessageMigration connects query cwd t))
          = sent t @ take (Suc i) (try_block sql) @ [''ROLLBACK'']
        \<and> db (snd (runUnreadMessageMigration connects query cwd t))
          = db_after query (db t) (take (Suc i) (try_block sql) @ [''ROLLBACK''])
        \<and> runner_exit_code connects query cwd t = 1"
      by (simp add: runner_exit_code_def)
  qed
next
  show "connects \<and> files t (migrationPath cwd) = Some Directory \<longrightarrow>
        sent (snd (runUnreadMessageMigration connects query cwd t)) = sent t @ [''ROLLBACK'']
        \<and> db (snd (runUnreadMessageMigration connects query cwd t))
          = db_after query (db t) [''ROLLBACK'']
        \<and> runner_exit_code connects query cwd t = 1"
    using runner_directory[of connects t cwd query] by blast
next
  show "\<not> connects \<longrightarrow>
        snd (runUnreadMessageMigration connects query cwd t) = t
        \<and> runner_exit_code connects query cwd t = 1"
    using runner_no_connection[of connects query cwd t] by blast
qed

theorem runner_applies_unconditionally_witness:
  "runUnreadMessageMigration True query_ok ''/app'' app_session
     = (Resolved,
        app_session\<lparr>db := try_block ''ALTER TABLE messages ADD COLUMN read_at timestamp'',
          sent := try_block ''ALTER TABLE messages ADD COLUMN read_at timestamp''\<rparr>)
   \<and> runUnreadMessageMigration True query_ok ''/app''
        (app_session\<lparr>db := try_block ''ALTER TABLE messages ADD COLUMN read_at timestamp'',
          sent := try_block ''ALTER TABLE messages ADD COLUMN read_at timestamp''\<rparr>)
     = (Resolved,
        app_session\<lparr>db := try_block ''ALTER TABLE messages ADD COLUMN read_at timestamp''
            @ try_block ''ALTER TABLE messages ADD COLUMN read_at timestamp'',
          sent := try_block ''ALTER TABLE messages ADD COLUMN read_at timestamp''
            @ try_block ''ALTER TABLE messages ADD COLUMN read_at timestamp''\<rparr>)
   \<and> runner_exit_code True query_ok ''/app'' app_session = 0
   \<and> (\<exists>rest. sent (snd (runUnreadMessageMigration True query_ok ''/app'' app_session))
        = ''BEGIN'' # ''ALTER TABLE messages ADD COLUMN read_at timestamp'' # rest)
   \<and> sent (snd (runUnreadMessageMigration True
        (query_rejecting ''ALTER TABLE messages ADD COLUMN read_at timestamp'') ''/app'' app_session))
      = [''BEGIN'', ''ALTER TABLE messages ADD COLUMN read_at timestamp'', ''ROLLBACK'']
   \<and> db (snd (runUnreadMessageMigration True
        (query_rejecting ''ALTER TABLE messages ADD COLUMN read_at timestamp'') ''/app'' app_session))
      = [''BEGIN'', ''ROLLBACK'']
   \<and> runner_exit_code True
        (query_rejecting ''ALTER TABLE messages ADD COLUMN read_at timestamp'') ''/app'' app_session = 1
   \<and> runner_exit_code True query_ok ''/app'' (app_session\<lparr>files := \<lambda>p. None\<rparr>) = 1
   \<and> sent (snd (runUnreadMessageMigration True query_ok ''/app''
        (app_session\<lparr>files := \<lambda>p. Some Directory\<rparr>))) = [''ROLLBACK'']
   \<and> runner_exit_code False query_ok ''/app'' app_session = 1
   \<and> fst (runUnreadMessageMigration True query_ok ''/app'' app_session)
       = fst (runUnreadMessageMigration True query_ok ''/app''
           (app_session\<lparr>files := (app_files(''/app/data/.migration_status'' := None))\<rparr>))"
proof -
  let ?sql = "''ALTER TABLE messages ADD COLUMN read_at timestamp''"
  let ?t2 = "app_session\<lparr>db := try_block ?sql, sent := try_block ?sql\<rparr>"
  let ?u = "app_session\<lparr>files := (app_files(''/app/data/.migration_status'' := None))\<rparr>"
  let ?gone = "app_session\<lparr>files := \<lambda>p. None\<rparr>"
  let ?dir = "app_session\<lparr>files := \<lambda>p. Some Directory\<rparr>"
  have there: "files app_session (migrationPath ''/app'') = Some (File ?sql)"
    by (simp add: app_session_def app_files_def migrationPath_def)
  have there2: "files ?t2 (migrationPath ''/app'') = Some (File ?sql)"
    by (simp add: app_session_def app_files_def migrationPath_def)
  have start: "db app_session = []" "sent app_session = []"
    by (simp_all add: app_session_def)
  note first = runner_applies_unconditionally[where t = app_session and connects = True
      and query = query_ok and cwd = "''/app''" and u = ?u and sql = ?sql and i = 0]
  note again = runner_applies_unconditionally[where t = ?t2 and connects = True
      and query = query_ok and cwd = "''/app''" and u = ?t2 and sql = ?sql and i = 0]
  note rejected = runner_applies_unconditionally[where t = app_session and connects = True
      and query = "query_rejecting ?sql" and cwd = "''/app''" and u = app_session
      and sql = ?sql and i = 1]
  note gone = runner_applies_unconditionally[where t = ?gone and connects = True
      and query = query_ok and cwd = "''/app''" and u = ?gone and sql = ?sql and i = 0]
  note dir = runner_applies_unconditionally[where t = ?dir and connects = True
      and query = query_ok and cwd = "''/app''" and u = ?dir and sql = ?sql and i = 0]
  note offline = runner_applies_unconditionally[where t = app_session and connects = False
      and query = query_ok and cwd = "''/app''" and u = app_session and sql = ?sql and i = 0]
  have resolve: "\<forall>i<length (try_block ?sql).
      snd (query_ok (try_block ?sql ! i) (db_after query_ok d (take i (try_block ?sql))))" for d
    by (simp add: query_ok_def)
  have c1: "runUnreadMessageMigration True query_ok ''/app'' app_session = (Resolved, ?t2)"
    and c3: "runner_exit_code True query_ok ''/app'' app_session = 0"
    using first[THEN conjunct2, THEN conjunct2, THEN conjunct2, THEN conjunct2, THEN conjunct2,
        THEN conjunct2, THEN conjunct2, THEN conjunct2, THEN conjunct1] there resolve[of "[]"]
    by (simp_all add: start db_after_query_ok)
  have c2: "runUnreadMessageMigration True query_ok ''/app'' ?t2
      = (Resolved, app_session\<lparr>db := try_block ?sql @ try_block ?sql,
           sent := try_block ?sql @ try_block ?sql\<rparr>)"
    using again[THEN conjunct2, THEN conjunct2, THEN conjunct2, THEN conjunct2, THEN conjunct2,
        THEN conjunct2, THEN conjunct2, THEN conjunct2, THEN conjunct1] there2
        resolve[of "try_block ?sql"]
    by (simp add: db_after_query_ok)
  have c4: "\<exists>rest. sent (snd (runUnreadMessageMigration True query_ok ''/app'' app_session))
        = ''BEGIN'' # ?sql # rest"
    using first[THEN conjunct2, THEN conjunct2, THEN conjunct2, THEN conjunct2, THEN conjunct1]
      there
    by (auto simp: start query_ok_def)
  have h5: "True \<and> files app_session (migrationPath ''/app'') = Some (File ?sql)
      \<and> 1 < length (try_block ?sql)
      \<and> (\<forall>j<1. snd (query_rejecting ?sql (try_block ?sql ! j)
             (db_after (query_rejecting ?sql) (db app_session) (take j (try_block ?sql)))))
      \<and> \<not> snd (query_rejecting ?sql (try_block ?sql ! 1)
             (db_after (query_rejecting ?sql) (db app_session) (take 1 (try_block ?sql))))"
    using there by (simp add: try_block_def query_rejecting_def)
  have after: "db_after (query_rejecting ?sql) [] (take (Suc 1) (try_block ?sql) @ [''ROLLBACK''])
      = [''BEGIN'', ''ROLLBACK'']"
    by (simp add: try_block_def db_after_def query_rejecting_def)
  have c5: "sent (snd (runUnreadMessageMigration True (query_rejecting ?sql) ''/app'' app_session))
        = [''BEGIN'', ?sql, ''ROLLBACK'']"
    and c6: "db (snd (runUnreadMessageMigration True (query_rejecting ?sql) ''/app'' app_session))
        = [''BEGIN'', ''ROLLBACK'']"
    and c7: "runner_exit_code True (query_rejecting ?sql) ''/app'' app_session = 1"
    using rejected[THEN conjunct2, THEN conjunct2, THEN conjunct2, THEN conjunct2, THEN conjunct2,
        THEN conjunct2, THEN conjunct2, THEN conjunct2, THEN conjunct2, THEN conjunct1] h5 after
    by (simp_all add: start try_block_def)
  have c8: "runner_exit_code True query_ok ''/app'' ?gone = 1"
    using gone[THEN conjunct2, THEN conjunct1] by simp
  have c9: "sent (snd (runUnreadMessageMigration True query_ok ''/app'' ?dir)) = [''ROLLBACK'']"
    using dir[THEN conjunct2, THEN conjunct2, THEN conjunct2, THEN conjunct2, THEN conjunct2,
        THEN conjunct2, THEN conjunct2, THEN conjunct2, THEN conjunct2, THEN conjunct2,
        THEN conjunct1]
    by (simp add: start)
  have c10: "runner_exit_code False query_ok ''/app'' app_session = 1"
    using offline[THEN conjunct2, THEN conjunct2, THEN conjunct2, THEN conjunct2, THEN conjunct2,
        THEN conjunct2, THEN conjunct2, THEN conjunct2, THEN conjunct2, THEN conjunct2,
        THEN conjunct2]
    by simp
  have same: "files app_session (migrationPath ''/app'') = files ?u (migrationPath ''/app'')
      \<and> db app_session = db ?u \<and> sent app_session = sent ?u"
    by (simp add: app_session_def migrationPath_def)
  have c11: "fst (runUnreadMessageMigration True query_ok ''/app'' app_session)
       = fst (runUnreadMessageMigration True query_ok ''/app'' ?u)"
    using first[THEN conjunct2, THEN conjunct2, THEN conjunct2, THEN conjunct1] same
    by blast
  from c1 c2 c3 c4 c5 c6 c7 c8 c9 c10 c11 show ?thesis by simp
qed

end
